theory Spec2Isabelle
  imports Complex_Main
begin

section \<open>JavaScript numbers\<close>

text \<open>
  A JavaScript number is NaN, one of the two infinities, or a finite binary64 value,
  kept here as the real number that it denotes. The two zeros are one value: they are
  equal under \<^verbatim>\<open>===\<close>, both falsy, and the pipeline never divides a nonzero number
  by zero, which is the only place where their sign would show.
\<close>

datatype jsnum = NaN | PInf | NInf | Fin real

subsection \<open>Rounding to binary64\<close>

text \<open>The number of binary digits of a natural number.\<close>

fun blen :: "nat \<Rightarrow> int" where
  "blen n = (if n = 0 then 0 else 1 + blen (n div 2))"

declare blen.simps [simp del]

text \<open>The binary exponent of a positive number \<open>x\<close>: \<open>2^e \<le> x < 2^(e + 1)\<close>.\<close>

definition expo :: "real \<Rightarrow> int" where
  "expo x = (if 1 \<le> x then blen (nat \<lfloor>x\<rfloor>) - 1 else - blen (nat \<lceil>1 / x\<rceil> - 1))"

text \<open>Rounding to the nearest integer, to the even one on a tie.\<close>

definition round_even :: "real \<Rightarrow> int" where
  "round_even q =
     (let f = \<lfloor>q\<rfloor>
      in if q - of_int f < 1 / 2 then f
         else if 1 / 2 < q - of_int f then f + 1
         else if even f then f else f + 1)"

text \<open>
  The spacing of the binary64 values around \<open>x\<close>: 53 significant bits, and the spacing
  of the subnormal range, \<open>2^-1074\<close>, below \<open>2^-1022\<close>.
\<close>

definition quantum :: "real \<Rightarrow> real" where
  "quantum x = 2 powi (max (expo \<bar>x\<bar>) (- 1022) - 52)"

definition nearest :: "real \<Rightarrow> real" where
  "nearest x = of_int (round_even (x / quantum x)) * quantum x"

definition huge :: real where
  "huge = 2 ^ 1024"

text \<open>
  The binary64 value of a real number: round to nearest, ties to even, and infinity
  when the rounded magnitude reaches \<open>2^1024\<close>.
\<close>

definition rnd :: "real \<Rightarrow> jsnum" where
  "rnd x =
     (if x = 0 then Fin 0
      else if huge \<le> \<bar>nearest x\<bar> then (if x < 0 then NInf else PInf)
      else Fin (nearest x))"

subsection \<open>Arithmetic\<close>

text \<open>
  Every operation on finite values is the exact operation followed by the rounding;
  the special values follow the IEEE rules that the language uses.
\<close>

fun jneg :: "jsnum \<Rightarrow> jsnum" where
  "jneg NaN = NaN"
| "jneg PInf = NInf"
| "jneg NInf = PInf"
| "jneg (Fin a) = Fin (- a)"

fun jadd :: "jsnum \<Rightarrow> jsnum \<Rightarrow> jsnum" where
  "jadd (Fin a) (Fin b) = rnd (a + b)"
| "jadd NaN _ = NaN"
| "jadd _ NaN = NaN"
| "jadd PInf NInf = NaN"
| "jadd NInf PInf = NaN"
| "jadd PInf _ = PInf"
| "jadd NInf _ = NInf"
| "jadd _ PInf = PInf"
| "jadd _ NInf = NInf"

definition jsub :: "jsnum \<Rightarrow> jsnum \<Rightarrow> jsnum" where
  "jsub a b = jadd a (jneg b)"

text \<open>The sign of a number that is not NaN: \<open>-1\<close>, \<open>0\<close> or \<open>1\<close>.\<close>

fun jsign :: "jsnum \<Rightarrow> int" where
  "jsign NaN = 0"
| "jsign PInf = 1"
| "jsign NInf = - 1"
| "jsign (Fin a) = (if a < 0 then - 1 else if a = 0 then 0 else 1)"

definition inf_of_sign :: "int \<Rightarrow> jsnum" where
  "inf_of_sign s = (if s = 0 then NaN else if s < 0 then NInf else PInf)"

fun jmul :: "jsnum \<Rightarrow> jsnum \<Rightarrow> jsnum" where
  "jmul (Fin a) (Fin b) = rnd (a * b)"
| "jmul NaN _ = NaN"
| "jmul _ NaN = NaN"
| "jmul a b = inf_of_sign (jsign a * jsign b)"

fun jdiv :: "jsnum \<Rightarrow> jsnum \<Rightarrow> jsnum" where
  "jdiv (Fin a) (Fin b) = (if b = 0 then inf_of_sign (jsign (Fin a)) else rnd (a / b))"
| "jdiv NaN _ = NaN"
| "jdiv _ NaN = NaN"
| "jdiv (Fin a) _ = Fin 0"
| "jdiv a (Fin b) = inf_of_sign (jsign a * (if b < 0 then - 1 else 1))"
| "jdiv _ _ = NaN"

text \<open>\<^verbatim>\<open>Math.sqrt\<close> is correctly rounded.\<close>

fun jsqrt :: "jsnum \<Rightarrow> jsnum" where
  "jsqrt NaN = NaN"
| "jsqrt PInf = PInf"
| "jsqrt NInf = NaN"
| "jsqrt (Fin a) = (if a < 0 then NaN else rnd (sqrt a))"

text \<open>\<^verbatim>\<open>x ** 2\<close>, which the engine computes as the product of \<open>x\<close> with itself.\<close>

definition jsq :: "jsnum \<Rightarrow> jsnum" where
  "jsq x = jmul x x"

text \<open>A number is falsy when it is zero or NaN; \<^verbatim>\<open>v || 0\<close> on a number.\<close>

fun falsy :: "jsnum \<Rightarrow> bool" where
  "falsy NaN = True"
| "falsy (Fin a) = (a = 0)"
| "falsy _ = False"

definition or0 :: "jsnum \<Rightarrow> jsnum" where
  "or0 v = (if falsy v then Fin 0 else v)"

text \<open>\<^verbatim>\<open>xs.reduce((a,b)=>a+b,0)\<close>\<close>

definition reduce_add :: "jsnum list \<Rightarrow> jsnum" where
  "reduce_add xs = foldl jadd (Fin 0) xs"

text \<open>
  \<^verbatim>\<open>x.toFixed(d)\<close> prints the decimal numeral with \<open>d\<close> digits after the point that
  is nearest to the exact value of \<open>x\<close>, the one of larger magnitude on a tie;
  \<open>round_dec\<close> is the value of that numeral. \<^verbatim>\<open>Number\<close> reads the numeral back as
  the nearest binary64 value. From \<open>10^21\<close> on \<^verbatim>\<open>toFixed\<close> prints the number itself.
\<close>

definition round_dec :: "nat \<Rightarrow> real \<Rightarrow> real" where
  "round_dec d x = sgn x * (of_int \<lfloor>\<bar>x\<bar> * 10 ^ d + 1 / 2\<rfloor> / 10 ^ d)"

fun toFixed_num :: "nat \<Rightarrow> jsnum \<Rightarrow> jsnum" where
  "toFixed_num d (Fin a) = (if 10 ^ 21 \<le> \<bar>a\<bar> then Fin a else rnd (round_dec d a))"
| "toFixed_num d v = v"

section \<open>Raw rows and the built-in conversions\<close>

text \<open>
  A raw row is the object that the CSV parser hands over: its own properties in the
  order in which they were created, every value a string. A property name occurs once,
  and \<^verbatim>\<open>__proto__\<close> is never an own property, since assigning a string to it creates
  none (\<open>wf_row\<close>).
\<close>

type_synonym raw_row = "(string \<times> string) list"


text \<open>
  Reading \<^verbatim>\<open>r[k]\<close> gives the own property when there is one, and otherwise follows
  the prototype chain to \<^verbatim>\<open>Object.prototype\<close>, whose members are functions, except
  \<^verbatim>\<open>__proto__\<close>, which gives the prototype object itself.
\<close>

datatype cell = Undefined | Str string | Inherited string

definition object_prototype_keys :: "string list" where
  "object_prototype_keys =
     [''constructor'', ''hasOwnProperty'', ''isPrototypeOf'', ''propertyIsEnumerable'',
      ''toLocaleString'', ''toString'', ''valueOf'', ''__proto__'',
      ''__defineGetter__'', ''__defineSetter__'', ''__lookupGetter__'', ''__lookupSetter__'']"

definition js_get :: "raw_row \<Rightarrow> string \<Rightarrow> cell" where
  "js_get r k =
     (case map_of r k of
        Some s \<Rightarrow> Str s
      | None \<Rightarrow> if k \<in> set object_prototype_keys then Inherited k else Undefined)"

text \<open>The string that an inherited member is converted to.\<close>

definition inherited_text :: "string \<Rightarrow> string" where
  "inherited_text k =
     (if k = ''__proto__'' then ''[object Object]''
      else ''function '' @ (if k = ''constructor'' then ''Object'' else k)
           @ ''() { [native code] }'')"

text \<open>
  \<^verbatim>\<open>Date.parse\<close> and the reading of a string as a numeric literal belong to the
  language, not to the repository, and the first is implementation-defined outside the
  ISO format. Both are parameters of the model. \<open>Date_parse\<close> gives the time value,
  \<open>None\<close> for an invalid date. \<open>Number_str\<close> gives the mathematical value of the
  literal, NaN when the string is not one; the conversion \<^verbatim>\<open>Number\<close> rounds it.
\<close>

record builtins =
  Date_parse :: "string \<Rightarrow> int option"
  Number_str :: "string \<Rightarrow> jsnum"

fun to_double :: "jsnum \<Rightarrow> jsnum" where
  "to_double (Fin a) = rnd a"
| "to_double v = v"

subsection \<open>\<^verbatim>\<open>Object.keys\<close>\<close>

text \<open>
  \<^verbatim>\<open>Object.keys\<close> lists the keys that are array indices first, in ascending numeric
  order, and then the other keys in the order of their creation. An array index is the
  canonical decimal numeral of an integer below \<open>2^32 - 1\<close>.
\<close>

definition is_digit :: "char \<Rightarrow> bool" where
  "is_digit c = (48 \<le> (of_char c :: nat) \<and> (of_char c :: nat) \<le> 57)"

definition dec_val :: "string \<Rightarrow> nat" where
  "dec_val s = foldl (\<lambda>a c. 10 * a + (of_char c - 48)) 0 s"

definition array_index :: "string \<Rightarrow> nat option" where
  "array_index s =
     (if s \<noteq> [] \<and> list_all is_digit s \<and> (s = ''0'' \<or> hd s \<noteq> CHR ''0'')
         \<and> dec_val s < 4294967295
      then Some (dec_val s) else None)"

definition index_rank :: "string \<Rightarrow> nat" where
  "index_rank k = (case array_index k of None \<Rightarrow> 0 | Some n \<Rightarrow> n)"

definition object_keys :: "(string \<times> 'a) list \<Rightarrow> string list" where
  "object_keys r =
     (let ks = map fst r
      in sort_key index_rank (filter (\<lambda>k. array_index k \<noteq> None) ks)
         @ filter (\<lambda>k. array_index k = None) ks)"

section \<open>The normalizer\<close>

text \<open>An exception raised while a request is handled, with the message of the engine.\<close>

datatype error = TypeError string | RangeError string

text \<open>
  The object \<^verbatim>\<open>out\<close> built for a row holds the parsed date under the key \<^verbatim>\<open>date\<close>
  and one number per series column, all in the same object.
\<close>

datatype jsval = VDate "int option" | VNum jsnum

type_synonym obj = "string \<rightharpoonup> jsval"

record normalized =
  dateCol :: "string option"
  seriesCols :: "string list"
  parsed :: "obj list"

text \<open>A property key that is \<^verbatim>\<open>undefined\<close> reads the property named "undefined".\<close>

definition prop_key :: "string option \<Rightarrow> string" where
  "prop_key k = (case k of None \<Rightarrow> ''undefined'' | Some s \<Rightarrow> s)"

text \<open>\<^verbatim>\<open>new Date(r[dateCol])\<close>; an inherited member is converted to a string first.\<close>

definition new_Date :: "builtins \<Rightarrow> cell \<Rightarrow> int option" where
  "new_Date B v =
     (case v of
        Undefined \<Rightarrow> None
      | Str s \<Rightarrow> Date_parse B s
      | Inherited k \<Rightarrow> Date_parse B (inherited_text k))"

text \<open>
  \<^verbatim>\<open>Number(r[c] || 0)\<close>: \<^verbatim>\<open>undefined\<close> and the empty string are falsy; an inherited
  member is truthy, and its string is not a numeric literal.
\<close>

definition Number_or0 :: "builtins \<Rightarrow> cell \<Rightarrow> jsnum" where
  "Number_or0 B v =
     (case v of
        Undefined \<Rightarrow> Fin 0
      | Str s \<Rightarrow> if s = [] then Fin 0 else to_double (Number_str B s)
      | Inherited k \<Rightarrow> NaN)"

definition make_out :: "builtins \<Rightarrow> string option \<Rightarrow> string list \<Rightarrow> raw_row \<Rightarrow> obj" where
  "make_out B dc scs r =
     foldl (\<lambda>out c. out(c \<mapsto> VNum (Number_or0 B (js_get r c))))
       [''date'' \<mapsto> VDate (new_Date B (js_get r (prop_key dc)))] scs"

text \<open>
  \<^verbatim>\<open>!isNaN(x.date.getTime())\<close>: a number has no \<^verbatim>\<open>getTime\<close>, and calling it
  raises a TypeError.
\<close>

definition date_ok :: "obj \<Rightarrow> error + bool" where
  "date_ok x = (case x ''date'' of Some (VDate t) \<Rightarrow> Inr (t \<noteq> None) | _ \<Rightarrow> Inl (TypeError ''x.date.getTime is not a function''))"

fun filter_dates :: "obj list \<Rightarrow> error + obj list" where
  "filter_dates [] = Inr []"
| "filter_dates (x # xs) =
     (case date_ok x of
        Inl e \<Rightarrow> Inl e
      | Inr keep \<Rightarrow>
          (case filter_dates xs of
             Inl e \<Rightarrow> Inl e
           | Inr ys \<Rightarrow> Inr (if keep then x # ys else ys)))"

text \<open>
  The argument is \<open>None\<close> when \<^verbatim>\<open>rows\<close> is undefined; the result \<open>Inr None\<close> is
  \<^verbatim>\<open>null\<close>.
\<close>

definition normalizeSalesData :: "builtins \<Rightarrow> raw_row list option \<Rightarrow> error + normalized option" where
  "normalizeSalesData B rows =
     (case rows of
        None \<Rightarrow> Inr None
      | Some [] \<Rightarrow> Inr None
      | Some (r0 # rs) \<Rightarrow>
          (let cols = object_keys r0;
               dc = (case cols of [] \<Rightarrow> None | c # _ \<Rightarrow> Some c);
               scs = drop 1 cols
           in case filter_dates (map (make_out B dc scs) (r0 # rs)) of
                Inl e \<Rightarrow> Inl e
              | Inr p \<Rightarrow> Inr (Some \<lparr>dateCol = dc, seriesCols = scs, parsed = p\<rparr>)))"

section \<open>The analytics endpoints\<close>

text \<open>
  \<^verbatim>\<open>salesDataFiles\<close> maps a file identifier to the rows parsed from the upload. A
  request carries the fields of \<^verbatim>\<open>req.body\<close> that the handlers read; a field is
  \<open>None\<close> when the body does not have it. The window and the number of months are
  integers, of a magnitude that binary64 holds exactly. A handler returns the response,
  or the exception that it raises, and the store.
\<close>

type_synonym store = "string \<rightharpoonup> raw_row list"

record request =
  fileId :: "string option"
  product :: "string option"
  window :: "int option"
  monthsForecast :: "int option"

datatype body =
    ErrorBody string
  | TopSeller string jsnum
  | MovingAverage "string option" int "(nat \<times> int \<times> jsnum) list"
  | Correlation "(string \<times> (string \<times> jsnum) list) list"
  | Forecast "string option" jsnum jsnum "(int \<times> jsnum) list"

type_synonym response = "nat \<times> body"

definition store_get :: "store \<Rightarrow> string option \<Rightarrow> raw_row list option" where
  "store_get st k = (case k of None \<Rightarrow> None | Some f \<Rightarrow> st f)"

text \<open>
  \<^verbatim>\<open>r[c] || 0\<close> on a normalized row. The handlers read series columns only, and a
  series column of a row that the normalizer returned is an own property that holds a
  number (lemma \<open>normalized_series_are_numbers\<close>), so the first and the last case
  are not reached.
\<close>

definition read_or0 :: "obj \<Rightarrow> string \<Rightarrow> jsnum" where
  "read_or0 r c =
     (case r c of None \<Rightarrow> Fin 0 | Some (VNum v) \<Rightarrow> or0 v | Some (VDate _) \<Rightarrow> NaN)"

text \<open>\<^verbatim>\<open>normalized.seriesCols.includes(product)\<close>\<close>

definition includes_js :: "string list \<Rightarrow> string option \<Rightarrow> bool" where
  "includes_js cs p = (case p of None \<Rightarrow> False | Some s \<Rightarrow> s \<in> set cs)"

subsection \<open>Top seller\<close>

text \<open>
  \<^verbatim>\<open>totals\<close> is an object: an assignment to a new key appends a property, an
  assignment to an old key replaces its value in place. \<^verbatim>\<open>Object.entries\<close> lists the
  properties in the order of \<^verbatim>\<open>Object.keys\<close>.
\<close>

fun assign :: "(string \<times> 'a) list \<Rightarrow> string \<Rightarrow> 'a \<Rightarrow> (string \<times> 'a) list" where
  "assign [] k v = [(k, v)]"
| "assign ((k', v') # ps) k v = (if k' = k then (k, v) # ps else (k', v') # assign ps k v)"

definition object_entries :: "(string \<times> 'a) list \<Rightarrow> (string \<times> 'a) list" where
  "object_entries t = concat (map (\<lambda>k. case map_of t k of None \<Rightarrow> [] | Some v \<Rightarrow> [(k, v)]) (object_keys t))"

text \<open>\<^verbatim>\<open>totals[c] += v\<close>; reading a key that is not there gives \<^verbatim>\<open>undefined\<close>, and the sum is NaN.\<close>

definition add_to :: "(string \<times> jsnum) list \<Rightarrow> string \<Rightarrow> jsnum \<Rightarrow> (string \<times> jsnum) list" where
  "add_to t c v = assign t c (jadd (case map_of t c of None \<Rightarrow> NaN | Some old \<Rightarrow> old) v)"

text \<open>
  \<^verbatim>\<open>Array.prototype.sort\<close> is stable. The comparator's result orders two elements by its
  sign, and NaN counts as zero. For a consistent comparator the language fixes the
  sorted array, and it is the one that this insertion sort computes.
\<close>

fun insert_by :: "('a \<Rightarrow> 'a \<Rightarrow> jsnum) \<Rightarrow> 'a \<Rightarrow> 'a list \<Rightarrow> 'a list" where
  "insert_by cmp x [] = [x]"
| "insert_by cmp x (y # ys) =
     (if 0 < jsign (cmp y x) then x # y # ys else y # insert_by cmp x ys)"

definition js_sort :: "('a \<Rightarrow> 'a \<Rightarrow> jsnum) \<Rightarrow> 'a list \<Rightarrow> 'a list" where
  "js_sort cmp xs = foldl (\<lambda>acc x. insert_by cmp x acc) [] xs"

definition by_total_desc :: "string \<times> jsnum \<Rightarrow> string \<times> jsnum \<Rightarrow> jsnum" where
  "by_total_desc a b = jsub (snd b) (snd a)"

definition sum_totals :: "normalized \<Rightarrow> (string \<times> jsnum) list" where
  "sum_totals nz =
     foldl (\<lambda>t r. foldl (\<lambda>t c. add_to t c (read_or0 r c)) t (seriesCols nz))
       (foldl (\<lambda>t col. assign t col (Fin 0)) [] (seriesCols nz))
       (parsed nz)"

definition top_seller :: "builtins \<Rightarrow> store \<Rightarrow> request \<Rightarrow> (error + response) \<times> store" where
  "top_seller B st req =
     (case normalizeSalesData B (store_get st (fileId req)) of
        Inl e \<Rightarrow> (Inl e, st)
      | Inr None \<Rightarrow> (Inr (400, ErrorBody ''invalid or missing fileId''), st)
      | Inr (Some nz) \<Rightarrow>
          (case js_sort by_total_desc (object_entries (sum_totals nz)) of
             [] \<Rightarrow> (Inl (TypeError ''Cannot read properties of undefined''), st)
           | t # _ \<Rightarrow> (Inr (200, TopSeller (fst t) (snd t)), st)))"

subsection \<open>Moving average\<close>

text \<open>\<^verbatim>\<open>values.slice(start, end)\<close> for \<open>0 \<le> start\<close> and \<open>end\<close> within the array.\<close>

definition slice :: "'a list \<Rightarrow> int \<Rightarrow> int \<Rightarrow> 'a list" where
  "slice xs s e = take (nat (e - s)) (drop (nat s) xs)"

text \<open>\<^verbatim>\<open>normalized.parsed[i].date.toISOString()\<close>, the instant kept as its time value.\<close>

definition date_iso :: "obj \<Rightarrow> error + int" where
  "date_iso r =
     (case r ''date'' of
        Some (VDate (Some t)) \<Rightarrow> Inr t
      | Some (VDate None) \<Rightarrow> Inl (RangeError ''Invalid time value'')
      | _ \<Rightarrow> Inl (TypeError ''toISOString is not a function''))"

definition ma_entry :: "obj list \<Rightarrow> jsnum list \<Rightarrow> int \<Rightarrow> nat \<Rightarrow> error + nat \<times> int \<times> jsnum" where
  "ma_entry ps vals w i =
     (let start = max 0 (int i - w + 1);
          sl = slice vals start (int i + 1);
          avg = jdiv (reduce_add sl) (Fin (of_nat (length sl)))
      in case date_iso (ps ! i) of Inl e \<Rightarrow> Inl e | Inr d \<Rightarrow> Inr (i, d, avg))"

fun collect :: "(error + 'a) list \<Rightarrow> error + 'a list" where
  "collect [] = Inr []"
| "collect (x # xs) =
     (case x of
        Inl e \<Rightarrow> Inl e
      | Inr v \<Rightarrow> (case collect xs of Inl e \<Rightarrow> Inl e | Inr vs \<Rightarrow> Inr (v # vs)))"

definition moving_average :: "builtins \<Rightarrow> store \<Rightarrow> request \<Rightarrow> (error + response) \<times> store" where
  "moving_average B st req =
     (let w = (case window req of None \<Rightarrow> 3 | Some w \<Rightarrow> w)
      in case normalizeSalesData B (store_get st (fileId req)) of
        Inl e \<Rightarrow> (Inl e, st)
      | Inr None \<Rightarrow> (Inr (400, ErrorBody ''invalid or missing fileId''), st)
      | Inr (Some nz) \<Rightarrow>
          if \<not> includes_js (seriesCols nz) (product req)
          then (Inr (400, ErrorBody ''product not found''), st)
          else
            (let vals = map (\<lambda>r. read_or0 r (prop_key (product req))) (parsed nz)
             in case collect (map (ma_entry (parsed nz) vals w) [0..<length vals]) of
                  Inl e \<Rightarrow> (Inl e, st)
                | Inr mov \<Rightarrow> (Inr (200, MovingAverage (product req) w mov), st)))"

subsection \<open>Correlation\<close>

text \<open>\<^verbatim>\<open>y[i]\<close> in arithmetic: \<^verbatim>\<open>undefined\<close> beyond the end, which a subtraction turns into NaN.\<close>

definition nth_num :: "jsnum list \<Rightarrow> nat \<Rightarrow> jsnum" where
  "nth_num y i = (if i < length y then y ! i else NaN)"

definition pearson :: "jsnum list \<Rightarrow> jsnum list \<Rightarrow> jsnum" where
  "pearson x y =
     (let n = Fin (of_nat (length x));
          mx = jdiv (reduce_add x) n;
          my = jdiv (reduce_add y) n;
          num = reduce_add (map (\<lambda>i. jmul (jsub (x ! i) mx) (jsub (nth_num y i) my)) [0..<length x]);
          denx = jsqrt (reduce_add (map (\<lambda>xi. jsq (jsub xi mx)) x));
          deny = jsqrt (reduce_add (map (\<lambda>yi. jsq (jsub yi my)) y));
          den = jmul denx deny
      in if den = Fin 0 then Fin 0 else jdiv num den)"

definition column_values :: "normalized \<Rightarrow> string \<Rightarrow> jsnum list" where
  "column_values nz c = map (\<lambda>r. read_or0 r c) (parsed nz)"

definition correlation_matrix :: "normalized \<Rightarrow> (string \<times> (string \<times> jsnum) list) list" where
  "correlation_matrix nz =
     foldl (\<lambda>m a. assign m a
              (foldl (\<lambda>row b. assign row b
                        (toFixed_num 4 (pearson (column_values nz a) (column_values nz b))))
                 [] (seriesCols nz)))
       [] (seriesCols nz)"

definition correlation :: "builtins \<Rightarrow> store \<Rightarrow> request \<Rightarrow> (error + response) \<times> store" where
  "correlation B st req =
     (case normalizeSalesData B (store_get st (fileId req)) of
        Inl e \<Rightarrow> (Inl e, st)
      | Inr None \<Rightarrow> (Inr (400, ErrorBody ''invalid or missing fileId''), st)
      | Inr (Some nz) \<Rightarrow> (Inr (200, Correlation (correlation_matrix nz)), st))"

subsection \<open>Forecast\<close>

record fit =
  slope :: jsnum
  intercept :: jsnum

definition regression :: "jsnum list \<Rightarrow> fit" where
  "regression y =
     (let X = map (\<lambda>i. Fin (of_nat i)) [0..<length y];
          n = Fin (of_nat (length X));
          xMean = jdiv (reduce_add X) n;
          yMean = jdiv (reduce_add y) n;
          num = reduce_add (map (\<lambda>i. jmul (jsub (X ! i) xMean) (jsub (nth_num y i) yMean)) [0..<length X]);
          den = reduce_add (map (\<lambda>xi. jsq (jsub xi xMean)) X);
          sl = (if den = Fin 0 then Fin 0 else jdiv num den)
      in \<lparr>slope = sl, intercept = jsub yMean (jmul sl xMean)\<rparr>)"

definition predictions :: "fit \<Rightarrow> nat \<Rightarrow> int \<Rightarrow> (int \<times> jsnum) list" where
  "predictions f n mf =
     map (\<lambda>m. let idx = int n + (m - 1);
                  pred = jadd (intercept f) (jmul (slope f) (Fin (of_int idx)))
              in (idx, toFixed_num 2 pred))
       [1..mf]"

definition forecast :: "builtins \<Rightarrow> store \<Rightarrow> request \<Rightarrow> (error + response) \<times> store" where
  "forecast B st req =
     (let mf = (case monthsForecast req of None \<Rightarrow> 3 | Some m \<Rightarrow> m)
      in case normalizeSalesData B (store_get st (fileId req)) of
        Inl e \<Rightarrow> (Inl e, st)
      | Inr None \<Rightarrow> (Inr (400, ErrorBody ''invalid or missing fileId''), st)
      | Inr (Some nz) \<Rightarrow>
          if \<not> includes_js (seriesCols nz) (product req)
          then (Inr (400, ErrorBody ''product not found''), st)
          else
            (let y = map (\<lambda>r. read_or0 r (prop_key (product req))) (parsed nz);
                 f = regression y
             in (Inr (200, Forecast (product req) (toFixed_num 4 (slope f))
                            (toFixed_num 4 (intercept f)) (predictions f (length y) mf)), st)))"

section \<open>Sample conversions\<close>

text \<open>
  An instance of the built-in conversions for the examples. \<open>sample_Date_parse\<close> agrees
  with \<^verbatim>\<open>Date.parse\<close> of V8 on the four ISO dates below, and on the strings of the
  examples that it rejects: the month names \<^verbatim>\<open>Jan\<close>, \<^verbatim>\<open>Feb\<close>, \<^verbatim>\<open>Mar\<close> and
  \<^verbatim>\<open>n/a\<close>. \<open>sample_Number_str\<close> reads the strings made of decimal digits with at most one
  point as \<^verbatim>\<open>Number\<close> does; the other forms of numeric literal (sign, exponent, radix
  prefix, \<^verbatim>\<open>Infinity\<close>, white space around) do not occur in the examples and are not
  recognised.
\<close>

definition sample_Date_parse :: "string \<Rightarrow> int option" where
  "sample_Date_parse s =
     (if s = ''2024-01-01'' then Some 1704067200000
      else if s = ''2024-02-01'' then Some 1706745600000
      else if s = ''2024-03-01'' then Some 1709251200000
      else if s = ''2024-04-01'' then Some 1711929600000
      else None)"

definition sample_Number_str :: "string \<Rightarrow> jsnum" where
  "sample_Number_str s =
     (let a = takeWhile (\<lambda>c. c \<noteq> CHR ''.'') s;
          b = drop 1 (dropWhile (\<lambda>c. c \<noteq> CHR ''.'') s)
      in if list_all is_digit a \<and> list_all is_digit b \<and> s \<noteq> ''.''
         then Fin (of_nat (dec_val (a @ b)) / 10 ^ length b)
         else NaN)"

definition sample :: builtins where
  "sample = \<lparr>Date_parse = sample_Date_parse, Number_str = sample_Number_str\<rparr>"

section \<open>Notions used to state the properties\<close>

text \<open>The columns that the normalizer infers from the first row.\<close>

definition infer_dateCol :: "raw_row \<Rightarrow> string option" where
  "infer_dateCol r0 = (case object_keys r0 of [] \<Rightarrow> None | c # _ \<Rightarrow> Some c)"

definition infer_seriesCols :: "raw_row \<Rightarrow> string list" where
  "infer_seriesCols r0 = drop 1 (object_keys r0)"

text \<open>The date-column value of a raw row parses to a valid date.\<close>

definition date_parses :: "builtins \<Rightarrow> string option \<Rightarrow> raw_row \<Rightarrow> bool" where
  "date_parses B dc r = (new_Date B (js_get r (prop_key dc)) \<noteq> None)"


text \<open>
  The binary64 values: zero, and the numbers \<open>n * 2^(e - 52)\<close> with a significand
  \<open>n\<close> of 53 bits in the normal range, and of fewer bits at the least exponent. Every
  one of them is a multiple of \<open>tiny\<close>.
\<close>

definition is_double :: "real \<Rightarrow> bool" where
  "is_double r \<longleftrightarrow>
     (\<exists>n e. - 1022 \<le> e \<and> e \<le> 1023 \<and> \<bar>n\<bar> < 2 ^ 53 \<and> (2 ^ 52 \<le> \<bar>n\<bar> \<or> e = - 1022)
        \<and> r = of_int n * 2 powi (e - 52))"





text \<open>
  Least squares as the specification words it, with the zero-based index as the
  independent variable: the slope is \<open>\<Sum>(x - x\<^sub>m)(y - y\<^sub>m) / \<Sum>(x - x\<^sub>m)\<^sup>2\<close>, zero when the
  denominator is zero, and the intercept is \<open>y\<^sub>m - slope * x\<^sub>m\<close>. First on exact values;
  then in binary64, every sum taken in the order of the indices starting from 0.
\<close>

definition index_mean :: "nat \<Rightarrow> real" where
  "index_mean n = (\<Sum>i<n. real i) / real n"

definition value_mean :: "real list \<Rightarrow> real" where
  "value_mean ys = (\<Sum>i<length ys. ys ! i) / real (length ys)"

definition ols_slope :: "real list \<Rightarrow> real" where
  "ols_slope ys =
     (let n = length ys;
          den = (\<Sum>i<n. (real i - index_mean n)\<^sup>2)
      in if den = 0 then 0
         else (\<Sum>i<n. (real i - index_mean n) * (ys ! i - value_mean ys)) / den)"

definition ols_intercept :: "real list \<Rightarrow> real" where
  "ols_intercept ys = value_mean ys - ols_slope ys * index_mean (length ys)"

definition sum_js :: "(nat \<Rightarrow> jsnum) \<Rightarrow> nat \<Rightarrow> jsnum" where
  "sum_js f n = foldl jadd (Fin 0) (map f [0..<n])"

definition index_mean_js :: "nat \<Rightarrow> jsnum" where
  "index_mean_js n = jdiv (sum_js (\<lambda>i. Fin (real i)) n) (Fin (real n))"

definition value_mean_js :: "jsnum list \<Rightarrow> jsnum" where
  "value_mean_js ys = jdiv (sum_js (\<lambda>i. ys ! i) (length ys)) (Fin (real (length ys)))"

definition ols_slope_js :: "jsnum list \<Rightarrow> jsnum" where
  "ols_slope_js ys =
     (let n = length ys;
          den = sum_js (\<lambda>i. jsq (jsub (Fin (real i)) (index_mean_js n))) n
      in if den = Fin 0 then Fin 0
         else jdiv (sum_js (\<lambda>i. jmul (jsub (Fin (real i)) (index_mean_js n))
                                     (jsub (ys ! i) (value_mean_js ys))) n) den)"

definition ols_intercept_js :: "jsnum list \<Rightarrow> jsnum" where
  "ols_intercept_js ys =
     jsub (value_mean_js ys) (jmul (ols_slope_js ys) (index_mean_js (length ys)))"

text \<open>
  The population Pearson coefficient as the specification words it, on exact values:
  the covariance over the product of the standard deviations, and 0 when that product
  is zero. In binary64 the sum of the squared deviations of a column is \<open>spread_js\<close>.
\<close>

definition covariance :: "real list \<Rightarrow> real list \<Rightarrow> real" where
  "covariance xs ys =
     (\<Sum>i<length xs. (xs ! i - value_mean xs) * (ys ! i - value_mean ys)) / real (length xs)"

definition variance :: "real list \<Rightarrow> real" where
  "variance xs = covariance xs xs"

definition stddev :: "real list \<Rightarrow> real" where
  "stddev xs = sqrt (variance xs)"

definition pearson_spec :: "real list \<Rightarrow> real list \<Rightarrow> real" where
  "pearson_spec xs ys =
     (if stddev xs * stddev ys = 0 then 0 else covariance xs ys / (stddev xs * stddev ys))"

definition spread_js :: "jsnum list \<Rightarrow> jsnum" where
  "spread_js xs = sum_js (\<lambda>i. jsq (jsub (xs ! i) (value_mean_js xs))) (length xs)"

text \<open>\<^verbatim>\<open>M[a][b]\<close>\<close>

definition matrix_entry :: "(string \<times> (string \<times> 'a) list) list \<Rightarrow> string \<Rightarrow> string \<Rightarrow> 'a option" where
  "matrix_entry m a b = (case map_of m a of None \<Rightarrow> None | Some row \<Rightarrow> map_of row b)"

text \<open>A request that names the upload \<^verbatim>\<open>f\<close> and a product.\<close>

definition request_for :: "string option \<Rightarrow> int option \<Rightarrow> request" where
  "request_for p w = \<lparr>fileId = Some ''f'', product = p, window = w, monthsForecast = None\<rparr>"

text \<open>
  Example uploads. \<open>month_rows\<close> is the example of the specification; \<open>ab_rows\<close> has
  the same series under dates in ISO format.
\<close>

definition abc_rows :: "raw_row list" where
  "abc_rows = [[(''Month'', ''2024-01-01''), (''A'', ''abc'')]]"

definition gap_rows :: "raw_row list" where
  "gap_rows =
     [[(''Month'', ''2024-01-01''), (''A'', ''10'')],
      [(''Month'', ''n/a''), (''A'', ''20'')],
      [(''Month'', ''2024-03-01''), (''A'', ''30'')]]"

definition short_rows :: "raw_row list" where
  "short_rows =
     [[(''Month'', ''2024-01-01''), (''toString'', ''7''), (''A'', ''1'')],
      [(''Month'', ''2024-02-01'')]]"



definition lin_rows :: "raw_row list" where
  "lin_rows =
     [[(''Month'', ''2024-01-01''), (''A'', ''10'')],
      [(''Month'', ''2024-02-01''), (''A'', ''20'')],
      [(''Month'', ''2024-03-01''), (''A'', ''30'')],
      [(''Month'', ''2024-04-01''), (''A'', ''40'')]]"

definition curve_rows :: "raw_row list" where
  "curve_rows =
     [[(''Month'', ''2024-01-01''), (''A'', ''1'')],
      [(''Month'', ''2024-02-01''), (''A'', ''2'')],
      [(''Month'', ''2024-03-01''), (''A'', ''4'')]]"



definition tie_rows :: "raw_row list" where
  "tie_rows =
     [[(''Month'', ''2024-01-01''), (''A'', ''0'')],
      [(''Month'', ''2024-02-01''), (''A'', ''0.005'')]]"

text \<open>The decimal numeral of \<open>10^155\<close>, a value whose square exceeds the binary64 range.\<close>

definition big_rows :: "raw_row list" where
  "big_rows =
     [[(''Month'', ''2024-01-01''), (''A'', ''1'' @ replicate 155 (CHR ''0''))],
      [(''Month'', ''2024-02-01''), (''A'', ''0'')]]"

section \<open>Properties of the rounding\<close>

subsection \<open>Exponent and nearest integer\<close>

lemma blen_pos: "0 < n \<Longrightarrow> 1 \<le> blen n"
proof (induction n rule: blen.induct)
  case (1 n)
  show ?case
  proof (cases "n div 2 = 0")
    case True
    with "1.prems" show ?thesis by (simp add: blen.simps [of n] blen.simps [of 0])
  next
    case False
    with "1.prems" "1.IH" have "1 \<le> blen (n div 2)" by simp
    with "1.prems" show ?thesis by (simp add: blen.simps [of n])
  qed
qed

lemma blen_bounds:
  "0 < n \<Longrightarrow> 2 ^ nat (blen n - 1) \<le> n \<and> n < 2 ^ nat (blen n)"
proof (induction n rule: blen.induct)
  case (1 n)
  show ?case
  proof (cases "n div 2 = 0")
    case True
    with "1.prems" have "n = 1" by (simp add: div_eq_0_iff) 
    moreover have "blen (Suc 0) = 1" by (simp add: blen.simps [of "Suc 0"] blen.simps [of 0])
    ultimately show ?thesis by simp
  next
    case False
    let ?k = "blen (n div 2)"
    from False "1.prems" "1.IH" have ih: "2 ^ nat (?k - 1) \<le> n div 2" "n div 2 < 2 ^ nat ?k"
      by simp_all
    from False have k: "1 \<le> ?k" by (simp add: blen_pos)
    have b: "blen n = ?k + 1" using "1.prems" by (simp add: blen.simps [of n])
    have p: "(2::nat) ^ nat ?k = 2 * 2 ^ nat (?k - 1)"
      using k by (metis Suc_nat_eq_nat_zadd1 add.commute diff_add_cancel diff_ge_0_iff_ge power_Suc)
    have "2 * (n div 2) \<le> n" by simp
    with ih(1) have lo: "2 ^ nat ?k \<le> n" unfolding p by linarith
    have "n < 2 * (n div 2) + 2" by (metis add.commute add_2_eq_Suc' div_mult_mod_eq lessI less_Suc_eq mod_less_divisor mult.commute nat_add_left_cancel_less pos2)
    moreover from ih(2) have "2 * (n div 2) + 2 \<le> 2 * 2 ^ nat ?k" by simp
    ultimately have hi: "n < 2 ^ nat (?k + 1)"
      using k by (simp add: nat_add_distrib)
    from lo hi show ?thesis by (simp add: b)
  qed
qed


lemma powi_nat: "0 \<le> k \<Longrightarrow> (2::real) powi k = 2 ^ nat k"
  by (simp add: power_int_def)

lemma powi_neg_nat: "0 \<le> k \<Longrightarrow> (2::real) powi (- k) = 1 / 2 ^ nat k"
  by (simp add: power_int_def field_simps)

lemma expo_bounds:
  assumes "0 < x"
  shows "2 powi expo x \<le> x \<and> x < 2 powi (expo x + 1)"
proof (cases "1 \<le> x")
  case True
  define m where "m = nat \<lfloor>x\<rfloor>"
  define b where "b = blen m"
  from True have m: "0 < m" by (simp add: m_def)
  have mx: "real m \<le> x" "x < real m + 1" using True unfolding m_def by linarith+
  from blen_bounds [OF m] have lo: "2 ^ nat (b - 1) \<le> m" and hi: "m < 2 ^ nat b"
    by (simp_all add: b_def)
  from blen_pos [OF m] have b: "1 \<le> b" by (simp add: b_def)
  from lo have "real (2 ^ nat (b - 1)) \<le> real m" by (simp only: of_nat_le_iff)
  then have "(2::real) ^ nat (b - 1) \<le> real m" by simp
  with mx(1) have "(2::real) ^ nat (b - 1) \<le> x" by linarith
  then have 1: "2 powi (b - 1) \<le> x" using b powi_nat [of "b - 1"] by simp
  from hi have "m + 1 \<le> 2 ^ nat b" by simp
  then have "real (m + 1) \<le> real (2 ^ nat b)" by (simp only: of_nat_le_iff)
  then have "real m + 1 \<le> 2 ^ nat b" by simp
  with mx(2) have "x < (2::real) ^ nat b" by linarith
  then have 2: "x < 2 powi b" using b powi_nat [of b] by simp
  have "expo x = b - 1" using True by (simp add: expo_def b_def m_def)
  with 1 2 show ?thesis by simp
next
  case False
  define y where "y = 1 / x"
  define c where "c = nat \<lceil>y\<rceil>"
  define k where "k = blen (c - 1)"
  from False assms have y: "1 < y" by (simp add: y_def)
  then have c2: "2 \<le> c" unfolding c_def by linarith
  then have c1: "0 < c - 1" by simp
  have cy: "y \<le> real c" "real c - 1 < y" using y unfolding c_def by linarith+
  from blen_bounds [OF c1] have lo: "2 ^ nat (k - 1) \<le> c - 1" and hi: "c - 1 < 2 ^ nat k"
    by (simp_all add: k_def)
  from blen_pos [OF c1] have k: "1 \<le> k" by (simp add: k_def)
  from hi c2 have "c \<le> 2 ^ nat k" by linarith
  then have "real c \<le> real (2 ^ nat k)" by (simp only: of_nat_le_iff)
  then have "real c \<le> 2 ^ nat k" by simp
  with cy(1) have "y \<le> 2 ^ nat k" by linarith
  then have "1 / 2 ^ nat k \<le> x" using assms by (simp add: y_def field_simps)
  then have 1: "2 powi (- k) \<le> x" using k powi_neg_nat [of k] by simp
  from lo have "real (2 ^ nat (k - 1)) \<le> real (c - 1)" by (simp only: of_nat_le_iff)
  then have "(2::real) ^ nat (k - 1) \<le> real c - 1" using c2 by simp
  then have "2 ^ nat (k - 1) < y" using cy(2) by linarith
  then have "x < 1 / 2 ^ nat (k - 1)" using assms by (simp add: y_def field_simps)
  moreover have "(2::real) powi (- k + 1) = 1 / 2 ^ nat (k - 1)"
    using k powi_neg_nat [of "k - 1"] by simp
  ultimately have 2: "x < 2 powi (- k + 1)" by simp
  have "expo x = - k" using False by (simp add: expo_def k_def c_def y_def)
  with 1 2 show ?thesis by simp
qed

lemma expo_unique:
  assumes "0 < x" and "2 powi e \<le> x" and "x < 2 powi (e + 1)"
  shows "expo x = e"
proof (rule antisym)
  from expo_bounds [OF assms(1)] assms(3) have "(2::real) powi expo x < 2 powi (e + 1)" by simp
  then have "expo x < e + 1"
    using power_int_increasing [of "e + 1" "expo x" "2::real"] by force
  then show "expo x \<le> e" by simp
next
  from expo_bounds [OF assms(1)] assms(2) have "(2::real) powi e < 2 powi (expo x + 1)" by simp
  then have "e < expo x + 1"
    using power_int_increasing [of "expo x + 1" e "2::real"] by force
  then show "e \<le> expo x" by simp
qed


lemma round_even_int: "round_even (of_int n) = n"
  by (simp add: round_even_def)

lemma round_even_near: "\<bar>of_int (round_even q) - q\<bar> \<le> 1 / 2"
proof -
  have "of_int \<lfloor>q\<rfloor> \<le> q" "q < of_int \<lfloor>q\<rfloor> + 1" by linarith+
  then show ?thesis by (auto simp: round_even_def Let_def)
qed

lemma round_even_eqI: "\<bar>q - of_int n\<bar> < 1 / 2 \<Longrightarrow> round_even q = n"
proof -
  assume a: "\<bar>q - of_int n\<bar> < 1 / 2"
  have "\<bar>of_int (round_even q) - of_int n :: real\<bar> < 1"
    using a round_even_near [of q] by linarith
  then have "\<bar>round_even q - n\<bar> < 1"
    by (metis of_int_1 of_int_abs of_int_diff of_int_less_iff)
  then show ?thesis by simp
qed

lemma round_even_ge: "of_int m \<le> q \<Longrightarrow> m \<le> round_even q"
proof -
  assume "of_int m \<le> q"
  then have "m \<le> \<lfloor>q\<rfloor>" by (simp add: le_floor_iff)
  then show ?thesis by (auto simp: round_even_def Let_def)
qed

lemma round_even_le: "q \<le> of_int m \<Longrightarrow> round_even q \<le> m"
proof (cases "q = of_int m")
  case True
  then show ?thesis by (simp add: round_even_int)
next
  case False
  assume "q \<le> of_int m"
  with False have "q < of_int m" by simp
  then have "\<lfloor>q\<rfloor> < m" by (simp add: floor_less_iff)
  then show ?thesis by (auto simp: round_even_def Let_def)
qed

lemma powi_52: "(2::real) powi (e - 52) * 2 ^ 52 = 2 powi e"
proof -
  have "(2::real) powi (e - 52 + 52) = 2 powi (e - 52) * 2 powi 52"
    by (rule power_int_add) simp
  moreover have "e - 52 + 52 = e" by simp
  ultimately show ?thesis by simp
qed

lemma powi_53: "(2::real) powi (e - 52) * 2 ^ 53 = 2 powi (e + 1)"
proof -
  have "(2::real) powi (e - 52 + 53) = 2 powi (e - 52) * 2 powi 53"
    by (rule power_int_add) simp
  moreover have "e - 52 + 53 = e + 1" by simp
  ultimately show ?thesis by simp
qed

lemma scaled_bounds:
  assumes "x \<noteq> 0" and "e = max (expo \<bar>x\<bar>) (- 1022)" and "u = 2 powi (e - 52)"
  shows "\<bar>x\<bar> / u < 2 ^ 53" and "- 1022 \<le> expo \<bar>x\<bar> \<Longrightarrow> 2 ^ 52 \<le> \<bar>x\<bar> / u"
    and "expo \<bar>x\<bar> < - 1022 \<Longrightarrow> \<bar>x\<bar> / u < 2 ^ 52"
proof -
  have u: "0 < u" by (simp add: assms(3))
  have x: "0 < \<bar>x\<bar>" using assms(1) by simp
  note b = expo_bounds [OF x]
  have "expo \<bar>x\<bar> + 1 \<le> e + 1" by (simp add: assms(2))
  then have "(2::real) powi (expo \<bar>x\<bar> + 1) \<le> 2 powi (e + 1)"
    by (intro power_int_increasing) simp_all
  with b have "\<bar>x\<bar> < 2 powi (e + 1)" by linarith
  then have "\<bar>x\<bar> < u * 2 ^ 53" using powi_53 [of e] by (simp add: assms(3))
  then show "\<bar>x\<bar> / u < 2 ^ 53" using u by (simp add: field_simps)
  {
    assume "- 1022 \<le> expo \<bar>x\<bar>"
    then have "e = expo \<bar>x\<bar>" by (simp add: assms(2))
    with b have "u * 2 ^ 52 \<le> \<bar>x\<bar>" using powi_52 [of e] by (simp add: assms(3))
    then show "2 ^ 52 \<le> \<bar>x\<bar> / u" using u by (simp add: field_simps)
  }
  {
    assume a: "expo \<bar>x\<bar> < - 1022"
    then have e: "e = - 1022" by (simp add: assms(2))
    from a have "expo \<bar>x\<bar> + 1 \<le> - 1022" by simp
    then have "(2::real) powi (expo \<bar>x\<bar> + 1) \<le> 2 powi (- 1022)"
      by (intro power_int_increasing) simp_all
    with b have "\<bar>x\<bar> < 2 powi e" unfolding e by linarith
    then have "\<bar>x\<bar> < u * 2 ^ 52" using powi_52 [of e] by (simp add: assms(3))
    then show "\<bar>x\<bar> / u < 2 ^ 52" using u by (simp add: field_simps)
  }
qed


lemma scaled_round:
  assumes "x \<noteq> 0" and "e = max (expo \<bar>x\<bar>) (- 1022)" and "u = 2 powi (e - 52)"
    and "n = round_even (x / u)"
  shows "\<bar>n\<bar> \<le> 2 ^ 53" and "- 1022 \<le> expo \<bar>x\<bar> \<Longrightarrow> 2 ^ 52 \<le> \<bar>n\<bar>"
    and "expo \<bar>x\<bar> < - 1022 \<Longrightarrow> \<bar>n\<bar> \<le> 2 ^ 52"
    and "0 < x \<Longrightarrow> 0 \<le> n" and "x < 0 \<Longrightarrow> n \<le> 0"
proof -
  have u: "0 < u" by (simp add: assms(3))
  have q: "\<bar>x / u\<bar> = \<bar>x\<bar> / u" using u by simp
  note sb = scaled_bounds [OF assms(1-3)]
  from sb(1) q have "x / u \<le> of_int (2 ^ 53)" "of_int (- (2 ^ 53)) \<le> x / u"
    by (simp_all add: abs_if split: if_splits)
  then have "n \<le> 2 ^ 53" "- (2 ^ 53) \<le> n"
    unfolding assms(4) by (simp_all only: round_even_le round_even_ge)
  then show "\<bar>n\<bar> \<le> 2 ^ 53" by simp
  {
    assume "- 1022 \<le> expo \<bar>x\<bar>"
    from sb(2) [OF this] q have "of_int (2 ^ 52) \<le> x / u \<or> x / u \<le> of_int (- (2 ^ 52))"
      by (simp add: abs_if split: if_splits)
    then have "2 ^ 52 \<le> n \<or> n \<le> - (2 ^ 52)"
      unfolding assms(4) using round_even_ge round_even_le by blast
    then show "2 ^ 52 \<le> \<bar>n\<bar>" by auto
  }
  {
    assume "expo \<bar>x\<bar> < - 1022"
    from sb(3) [OF this] q have "x / u \<le> of_int (2 ^ 52)" "of_int (- (2 ^ 52)) \<le> x / u"
      by (simp_all add: abs_if split: if_splits)
    then have "n \<le> 2 ^ 52" "- (2 ^ 52) \<le> n"
      unfolding assms(4) by (simp_all only: round_even_le round_even_ge)
    then show "\<bar>n\<bar> \<le> 2 ^ 52" by simp
  }
  {
    assume "0 < x"
    then have "of_int 0 \<le> x / u" using u by simp
    then show "0 \<le> n" unfolding assms(4) by (rule round_even_ge)
  }
  {
    assume "x < 0"
    then have "x / u \<le> of_int 0" using u by (simp add: divide_nonpos_pos)
    then show "n \<le> 0" unfolding assms(4) by (rule round_even_le)
  }
qed

lemma huge_powi: "huge = 2 powi 1024"
  by (simp add: huge_def)

lemma powi_less_huge: "(2::real) powi k < huge \<Longrightarrow> k \<le> 1023"
proof (rule ccontr)
  assume a: "(2::real) powi k < huge" and "\<not> k \<le> 1023"
  then have "1024 \<le> k" by simp
  then have "(2::real) powi 1024 \<le> 2 powi k" by (intro power_int_increasing) simp_all
  with a show False by (simp only: huge_powi)
qed

lemma is_double_0: "is_double 0"
  unfolding is_double_def by (intro exI [of _ 0] exI [of _ "- 1022"]) simp

lemma rnd_Fin_double:
  assumes "rnd x = Fin r"
  shows "is_double r"
proof (cases "x = 0")
  case True
  with assms show ?thesis by (simp add: rnd_def is_double_0)
next
  case False
  define e where "e = max (expo \<bar>x\<bar>) (- 1022)"
  define u where "u = (2::real) powi (e - 52)"
  define n where "n = round_even (x / u)"
  have u: "0 < u" by (simp add: u_def)
  have nr: "nearest x = of_int n * u"
    by (simp add: nearest_def quantum_def n_def u_def e_def)
  from assms False have r: "r = of_int n * u" and lim: "\<bar>of_int n * u\<bar> < huge"
    unfolding rnd_def nr by (simp_all split: if_splits)
  note sr = scaled_round [OF False e_def u_def n_def]
  have e: "- 1022 \<le> e" by (simp add: e_def)
  have absr: "\<bar>of_int n * u\<bar> = of_int \<bar>n\<bar> * u" using u by (simp add: abs_mult)
  show ?thesis
  proof (cases "\<bar>n\<bar> = 2 ^ 53")
    case True
    have "of_int \<bar>n\<bar> * u = 2 powi (e + 1)"
      using powi_53 [of e] by (simp add: True u_def mult.commute)
    with lim absr have "e + 1 \<le> 1023" by (intro powi_less_huge) simp
    moreover have "r = of_int (n div 2) * 2 powi (e + 1 - 52)"
    proof -
      have "(2::real) powi (e - 52 + 1) = 2 powi (e - 52) * 2 powi 1"
        by (rule power_int_add) simp
      moreover have "e - 52 + 1 = e + 1 - 52" by simp
      ultimately have "(2::real) powi (e + 1 - 52) = 2 * u" by (simp add: u_def)
      moreover from True have pm: "n = 2 ^ 53 \<or> n = - (2 ^ 53)" by linarith
      then have "n = 2 * (n div 2)" by (elim disjE) simp_all
      then have "(of_int n :: real) = 2 * of_int (n div 2)"
        by (metis of_int_mult of_int_numeral)
      ultimately show ?thesis by (simp add: r)
    qed
    moreover from True have "n = 2 ^ 53 \<or> n = - (2 ^ 53)" by linarith
    then have "\<bar>n div 2\<bar> = 2 ^ 52" by (elim disjE) simp_all
    ultimately show ?thesis
      unfolding is_double_def using e
      by (intro exI [of _ "n div 2"] exI [of _ "e + 1"]) simp
  next
    case False
    with sr(1) have n53: "\<bar>n\<bar> < 2 ^ 53" by simp
    show ?thesis
    proof (cases "- 1022 \<le> expo \<bar>x\<bar>")
      case True
      from sr(2) [OF True] have n52: "2 ^ 52 \<le> \<bar>n\<bar>" .
      then have "(2::real) ^ 52 \<le> of_int \<bar>n\<bar>"
        by (metis of_int_le_iff of_int_numeral of_int_power)
      then have "u * 2 ^ 52 \<le> u * of_int \<bar>n\<bar>" using u by (intro mult_left_mono) simp_all
      moreover have "2 powi e = u * 2 ^ 52" using powi_52 [of e] by (simp only: u_def)
      ultimately have "2 powi e \<le> of_int \<bar>n\<bar> * u" by (simp only: mult.commute)
      with lim absr have "e \<le> 1023" by (intro powi_less_huge) simp
      with n53 n52 e r show ?thesis
        unfolding is_double_def u_def by (intro exI [of _ n] exI [of _ e]) simp
    next
      case False
      then have "e = - 1022" by (simp add: e_def)
      with n53 r show ?thesis
        unfolding is_double_def u_def by (intro exI [of _ n] exI [of _ e]) simp
    qed
  qed
qed


lemma quantum_normal:
  assumes "0 < x" and "2 powi e \<le> x" and "x < 2 powi (e + 1)" and "- 1022 \<le> e"
  shows "quantum x = 2 powi (e - 52)"
  using expo_unique [OF assms(1-3)] assms(1,4) by (simp add: quantum_def)

lemma quantum_subnormal:
  assumes "0 < x" and "x < 2 powi (- 1022)"
  shows "quantum x = 2 powi (- 1074)"
proof -
  from expo_bounds [OF assms(1)] assms(2) have "(2::real) powi expo x < 2 powi (- 1022)" by linarith
  then have "expo x < - 1022"
    using power_int_increasing [of "- 1022" "expo x" "2::real"] by force
  with assms(1) show ?thesis by (simp add: quantum_def)
qed

lemma quantum_abs: "quantum \<bar>x\<bar> = quantum x"
  by (simp add: quantum_def)

lemma nearest_exact:
  assumes "x = of_int n * quantum x"
  shows "nearest x = x"
proof -
  have "0 < quantum x" by (simp add: quantum_def)
  then have "x / quantum x = of_int n" using assms by (simp add: field_simps)
  then show ?thesis using assms by (simp add: nearest_def round_even_int)
qed

lemma rnd_double:
  assumes "is_double r"
  shows "rnd r = Fin r"
proof (cases "r = 0")
  case True
  then show ?thesis by (simp add: rnd_def)
next
  case False
  from assms obtain n e where e: "- 1022 \<le> e" "e \<le> 1023" and n53: "\<bar>n\<bar> < 2 ^ 53"
    and n52: "2 ^ 52 \<le> \<bar>n\<bar> \<or> e = - 1022" and r: "r = of_int n * 2 powi (e - 52)"
    unfolding is_double_def by blast
  define u where "u = (2::real) powi (e - 52)"
  have u: "0 < u" by (simp add: u_def)
  have absr: "\<bar>r\<bar> = of_int \<bar>n\<bar> * u" using u by (simp add: r u_def abs_mult)
  from n53 have "of_int \<bar>n\<bar> < (2::real) ^ 53"
    by (metis of_int_less_iff of_int_numeral of_int_power)
  then have "u * of_int \<bar>n\<bar> < u * 2 ^ 53" using u by (intro mult_strict_left_mono) simp_all
  moreover have "u * 2 ^ 53 = 2 powi (e + 1)" using powi_53 [of e] by (simp only: u_def)
  ultimately have hi: "\<bar>r\<bar> < 2 powi (e + 1)" by (simp only: absr mult.commute)
  have "(2::real) powi (e + 1) \<le> 2 powi 1024" using e by (intro power_int_increasing) simp_all
  with hi have lim: "\<bar>r\<bar> < huge" by (simp only: huge_powi)
  have q: "quantum r = u"
  proof (cases "2 ^ 52 \<le> \<bar>n\<bar>")
    case True
    then have "(2::real) ^ 52 \<le> of_int \<bar>n\<bar>"
      by (metis of_int_le_iff of_int_numeral of_int_power)
    then have "u * 2 ^ 52 \<le> u * of_int \<bar>n\<bar>" using u by (intro mult_left_mono) simp_all
    moreover have "2 powi e = u * 2 ^ 52" using powi_52 [of e] by (simp only: u_def)
    ultimately have lo: "2 powi e \<le> \<bar>r\<bar>" by (simp only: absr mult.commute)
    have "quantum \<bar>r\<bar> = 2 powi (e - 52)"
      using False lo hi e(1) by (intro quantum_normal) simp_all
    then show ?thesis by (simp add: quantum_abs u_def)
  next
    case F: False
    with n52 have e1: "e = - 1022" by simp
    from F have "of_int \<bar>n\<bar> < (2::real) ^ 52"
      by (metis not_le of_int_less_iff of_int_numeral of_int_power)
    then have "u * of_int \<bar>n\<bar> < u * 2 ^ 52" using u by (intro mult_strict_left_mono) simp_all
    moreover have "u * 2 ^ 52 = 2 powi e" using powi_52 [of e] by (simp only: u_def)
    ultimately have "\<bar>r\<bar> < 2 powi (- 1022)" by (simp only: absr mult.commute e1)
    then have "quantum \<bar>r\<bar> = 2 powi (- 1074)" using False by (intro quantum_subnormal) simp_all
    then show ?thesis by (simp add: quantum_abs u_def e1)
  qed
  have "r = of_int n * quantum r" unfolding q u_def by (rule r)
  then have "nearest r = r" by (rule nearest_exact)
  with False lim show ?thesis by (simp add: rnd_def)
qed

lemma rnd_idem: "rnd x = Fin r \<Longrightarrow> rnd r = Fin r"
  by (rule rnd_double) (rule rnd_Fin_double)





lemma rnd_overflow:
  assumes "huge \<le> \<bar>x\<bar>"
  shows "rnd x = (if x < 0 then NInf else PInf)"
proof -
  have h: "0 < huge" by (simp add: huge_def)
  with assms have x0: "x \<noteq> 0" by auto
  then have x: "0 < \<bar>x\<bar>" by simp
  define e where "e = max (expo \<bar>x\<bar>) (- 1022)"
  define u where "u = (2::real) powi (e - 52)"
  define n where "n = round_even (x / u)"
  have u: "0 < u" by (simp add: u_def)
  from expo_bounds [OF x] assms have "(2::real) powi 1024 < 2 powi (expo \<bar>x\<bar> + 1)"
    by (simp only: huge_powi) linarith
  then have ex: "1024 \<le> expo \<bar>x\<bar>"
    using power_int_increasing [of "expo \<bar>x\<bar> + 1" 1024 "2::real"] by force
  then have ee: "e = expo \<bar>x\<bar>" by (simp add: e_def)
  from ex have "- 1022 \<le> expo \<bar>x\<bar>" by simp
  from scaled_round(2) [OF x0 e_def u_def n_def this] have "(2::real) ^ 52 \<le> of_int \<bar>n\<bar>"
    by (metis of_int_le_iff of_int_numeral of_int_power)
  then have "u * 2 ^ 52 \<le> u * of_int \<bar>n\<bar>" using u by (intro mult_left_mono) simp_all
  moreover have "2 powi e = u * 2 ^ 52" using powi_52 [of e] by (simp only: u_def)
  moreover have "(2::real) powi 1024 \<le> 2 powi e" using ex ee by (intro power_int_increasing) simp_all
  moreover have "\<bar>nearest x\<bar> = u * of_int \<bar>n\<bar>"
    using u by (simp add: nearest_def quantum_def n_def u_def e_def abs_mult)
  ultimately have "huge \<le> \<bar>nearest x\<bar>" by (simp only: huge_powi)
  with x0 show ?thesis by (simp add: rnd_def)
qed

lemma rnd_eqI:
  assumes "2 powi e \<le> \<bar>x\<bar>" and "\<bar>x\<bar> < 2 powi (e + 1)" and "- 1022 \<le> e"
    and "\<bar>x / 2 powi (e - 52) - of_int n\<bar> < 1 / 2"
    and "\<bar>of_int n * 2 powi (e - 52)\<bar> < huge"
  shows "rnd x = Fin (of_int n * 2 powi (e - 52))"
proof -
  have "(0::real) < 2 powi e" by simp
  with assms(1) have x: "0 < \<bar>x\<bar>" by linarith
  then have x0: "x \<noteq> 0" by simp
  have "quantum \<bar>x\<bar> = 2 powi (e - 52)" using x assms(1-3) by (rule quantum_normal)
  then have q: "quantum x = 2 powi (e - 52)" by (simp add: quantum_abs)
  have "round_even (x / 2 powi (e - 52)) = n" using assms(4) by (rule round_even_eqI)
  then have "nearest x = of_int n * 2 powi (e - 52)" by (simp add: nearest_def q)
  with x0 assms(5) show ?thesis by (simp add: rnd_def)
qed

lemmas rnd_eval = rnd_def nearest_def quantum_def huge_def expo_def blen.simps round_even_def Let_def

subsection \<open>Values used in the examples\<close>

lemma rnd_0: "rnd 0 = Fin 0"
  by (simp add: rnd_def)

lemma rnd_small:
  "rnd 1 = Fin 1" "rnd 2 = Fin 2" "rnd 3 = Fin 3" "rnd 4 = Fin 4" "rnd 5 = Fin 5"
  "rnd 6 = Fin 6" "rnd 7 = Fin 7" "rnd 10 = Fin 10" "rnd 15 = Fin 15" "rnd 20 = Fin 20"
  "rnd 25 = Fin 25" "rnd 30 = Fin 30" "rnd 40 = Fin 40" "rnd 50 = Fin 50" "rnd 60 = Fin 60"
  "rnd 70 = Fin 70" "rnd 100 = Fin 100"
  by (simp_all add: rnd_eval)

lemma sample_numbers:
  "Number_or0 sample (Str ''0'') = Fin 0" "Number_or0 sample (Str ''1'') = Fin 1"
  "Number_or0 sample (Str ''2'') = Fin 2" "Number_or0 sample (Str ''4'') = Fin 4"
  "Number_or0 sample (Str ''5'') = Fin 5" "Number_or0 sample (Str ''7'') = Fin 7"
  "Number_or0 sample (Str ''10'') = Fin 10" "Number_or0 sample (Str ''15'') = Fin 15"
  "Number_or0 sample (Str ''20'') = Fin 20" "Number_or0 sample (Str ''30'') = Fin 30"
  "Number_or0 sample (Str ''40'') = Fin 40" "Number_or0 sample (Str ''abc'') = NaN"
  by (simp_all add: Number_or0_def sample_def sample_Number_str_def is_digit_def dec_val_def
      rnd_small rnd_0)

lemma Number_or0_absent:
  "Number_or0 B Undefined = Fin 0" "Number_or0 B (Inherited k) = NaN" "Number_or0 B (Str []) = Fin 0"
  by (simp_all add: Number_or0_def)

lemma sample_dates:
  "new_Date sample (Str ''2024-01-01'') = Some 1704067200000"
  "new_Date sample (Str ''2024-02-01'') = Some 1706745600000"
  "new_Date sample (Str ''2024-03-01'') = Some 1709251200000"
  "new_Date sample (Str ''2024-04-01'') = Some 1711929600000"
  "new_Date sample (Str ''n/a'') = None" "new_Date sample (Str ''Jan'') = None"
  "new_Date sample (Str ''Feb'') = None" "new_Date sample (Str ''Mar'') = None"
  by (simp_all add: new_Date_def sample_def sample_Date_parse_def)

section \<open>Properties of the normalizer\<close>

lemma foldl_upd_lookup:
  "foldl (\<lambda>out c. out(c \<mapsto> f c)) m cs k = (if k \<in> set cs then Some (f k) else m k)"
  by (induction cs arbitrary: m rule: rev_induct) auto

lemma make_out_series:
  "c \<in> set scs \<Longrightarrow> make_out B dc scs r c = Some (VNum (Number_or0 B (js_get r c)))"
  by (simp add: make_out_def foldl_upd_lookup)

lemma make_out_date:
  "''date'' \<notin> set scs \<Longrightarrow> make_out B dc scs r ''date'' = Some (VDate (new_Date B (js_get r (prop_key dc))))"
  by (simp add: make_out_def foldl_upd_lookup)

lemma make_out_other:
  "c \<notin> set scs \<Longrightarrow> c \<noteq> ''date'' \<Longrightarrow> make_out B dc scs r c = None"
  by (simp add: make_out_def foldl_upd_lookup)

lemma dom_make_out: "dom (make_out B dc scs r) = insert ''date'' (set scs)"
  by (auto simp: make_out_def foldl_upd_lookup dom_def split: if_splits)

lemma date_ok_make_out:
  "date_ok (make_out B dc scs r) =
     (if ''date'' \<in> set scs then Inl (TypeError ''x.date.getTime is not a function'')
      else Inr (date_parses B dc r))"
  by (simp add: date_ok_def make_out_series make_out_date date_parses_def)

lemma filter_dates_throws:
  "''date'' \<in> set scs \<Longrightarrow> rows \<noteq> [] \<Longrightarrow>
   filter_dates (map (make_out B dc scs) rows) = Inl (TypeError ''x.date.getTime is not a function'')"
  by (cases rows) (simp_all add: date_ok_make_out)

lemma filter_dates_returns:
  "''date'' \<notin> set scs \<Longrightarrow>
   filter_dates (map (make_out B dc scs) rows) =
     Inr (map (make_out B dc scs) (filter (date_parses B dc) rows))"
  by (induction rows) (simp_all add: date_ok_make_out)

lemma normalize_absent: "normalizeSalesData B None = Inr None"
  and normalize_empty: "normalizeSalesData B (Some []) = Inr None"
  by (simp_all add: normalizeSalesData_def)

lemma normalize_cons:
  "normalizeSalesData B (Some (r0 # rs)) =
     (if ''date'' \<in> set (infer_seriesCols r0)
      then Inl (TypeError ''x.date.getTime is not a function'')
      else Inr (Some \<lparr>dateCol = infer_dateCol r0, seriesCols = infer_seriesCols r0,
             parsed = map (make_out B (infer_dateCol r0) (infer_seriesCols r0))
                        (filter (date_parses B (infer_dateCol r0)) (r0 # rs))\<rparr>))"
proof (cases "''date'' \<in> set (infer_seriesCols r0)")
  case True
  then have "filter_dates (map (make_out B (infer_dateCol r0) (infer_seriesCols r0)) (r0 # rs))
      = Inl (TypeError ''x.date.getTime is not a function'')"
    by (intro filter_dates_throws) simp_all
  with True show ?thesis
    by (simp add: normalizeSalesData_def infer_dateCol_def infer_seriesCols_def Let_def del: filter_dates.simps list.map)
next
  case False
  then have "filter_dates (map (make_out B (infer_dateCol r0) (infer_seriesCols r0)) (r0 # rs))
      = Inr (map (make_out B (infer_dateCol r0) (infer_seriesCols r0))
                        (filter (date_parses B (infer_dateCol r0)) (r0 # rs)))"
    by (rule filter_dates_returns)
  with False show ?thesis
    by (simp add: normalizeSalesData_def infer_dateCol_def infer_seriesCols_def Let_def del: filter_dates.simps list.map filter.simps)
qed

lemma normalize_SomeD:
  assumes "normalizeSalesData B rows = Inr (Some nz)"
  obtains r0 rs where "rows = Some (r0 # rs)" "''date'' \<notin> set (infer_seriesCols r0)"
    "nz = \<lparr>dateCol = infer_dateCol r0, seriesCols = infer_seriesCols r0,
             parsed = map (make_out B (infer_dateCol r0) (infer_seriesCols r0))
                        (filter (date_parses B (infer_dateCol r0)) (r0 # rs))\<rparr>"
proof (cases rows)
  case None
  with assms show ?thesis by (simp add: normalize_absent)
next
  case (Some rs0)
  show ?thesis
  proof (cases rs0)
    case Nil
    with Some assms show ?thesis by (simp add: normalize_empty)
  next
    case (Cons r0 rs)
    with Some assms that show ?thesis
      by (simp add: normalize_cons split: if_splits)
  qed
qed

subsection \<open>Evaluation on the examples\<close>

lemma array_index_names:
  "array_index ''Month'' = None" "array_index ''A'' = None" "array_index ''B'' = None"
  "array_index ''date'' = None" "array_index ''toString'' = None"
  by (simp_all add: array_index_def is_digit_def)

lemma array_index_years:
  "array_index ''2020'' = Some 2020" "array_index ''2021'' = Some 2021"
  by (simp_all add: array_index_def is_digit_def dec_val_def)

lemma object_keys_Month_A: "object_keys [(''Month'', a), (''A'', b)] = [''Month'', ''A'']"
  by (simp add: object_keys_def array_index_names)

lemma object_keys_Month_A_B:
  "object_keys [(''Month'', a), (''A'', b), (''B'', c)] = [''Month'', ''A'', ''B'']"
  by (simp add: object_keys_def array_index_names)

lemma object_keys_Month_toString_A:
  "object_keys [(''Month'', a), (''toString'', b), (''A'', c)] = [''Month'', ''toString'', ''A'']"
  by (simp add: object_keys_def array_index_names)

lemmas normalize_eval = normalize_cons infer_seriesCols_def infer_dateCol_def
  object_keys_Month_A object_keys_Month_A_B object_keys_Month_toString_A
  date_parses_def prop_key_def make_out_def js_get_def object_prototype_keys_def
  sample_dates sample_numbers

lemma abc_rows_normalized:
  "normalizeSalesData sample (Some abc_rows) =
     Inr (Some \<lparr>dateCol = Some ''Month'', seriesCols = [''A''],
       parsed = [[''date'' \<mapsto> VDate (Some 1704067200000), ''A'' \<mapsto> VNum NaN]]\<rparr>)"
  by (simp add: abc_rows_def normalize_eval)

lemma gap_rows_normalized:
  "normalizeSalesData sample (Some gap_rows) =
     Inr (Some \<lparr>dateCol = Some ''Month'', seriesCols = [''A''],
       parsed = [[''date'' \<mapsto> VDate (Some 1704067200000), ''A'' \<mapsto> VNum (Fin 10)],
                 [''date'' \<mapsto> VDate (Some 1709251200000), ''A'' \<mapsto> VNum (Fin 30)]]\<rparr>)"
  by (simp add: gap_rows_def normalize_eval)

lemma short_rows_normalized:
  "normalizeSalesData sample (Some short_rows) =
     Inr (Some \<lparr>dateCol = Some ''Month'', seriesCols = [''toString'', ''A''],
       parsed = [[''date'' \<mapsto> VDate (Some 1704067200000), ''toString'' \<mapsto> VNum (Fin 7),
                  ''A'' \<mapsto> VNum (Fin 1)],
                 [''date'' \<mapsto> VDate (Some 1706745600000), ''toString'' \<mapsto> VNum NaN,
                  ''A'' \<mapsto> VNum (Fin 0)]]\<rparr>)"
  by (simp add: short_rows_def normalize_eval Number_or0_absent)

lemma lin_rows_normalized:
  "normalizeSalesData sample (Some lin_rows) =
     Inr (Some \<lparr>dateCol = Some ''Month'', seriesCols = [''A''],
       parsed = [[''date'' \<mapsto> VDate (Some 1704067200000), ''A'' \<mapsto> VNum (Fin 10)],
                 [''date'' \<mapsto> VDate (Some 1706745600000), ''A'' \<mapsto> VNum (Fin 20)],
                 [''date'' \<mapsto> VDate (Some 1709251200000), ''A'' \<mapsto> VNum (Fin 30)],
                 [''date'' \<mapsto> VDate (Some 1711929600000), ''A'' \<mapsto> VNum (Fin 40)]]\<rparr>)"
  by (simp add: lin_rows_def normalize_eval)



subsection \<open>Stored values\<close>

text \<open>
  C5, as the code has it. When the normalizer returns a series, every kept row is the
  object built from the corresponding raw row whose date parses: its keys are
  \<^verbatim>\<open>date\<close> and exactly the series column names, and under a series column it stores
  \<^verbatim>\<open>Number(r[c] || 0)\<close>. That is zero when the row has no such property and inherits
  none, or has the empty string; NaN when the row has no such property and the column
  bears the name of a member of \<^verbatim>\<open>Object.prototype\<close>, which the read then finds; and
  otherwise the binary64 value that \<^verbatim>\<open>Number\<close> makes of the string, which is NaN for
  a string that is not a numeric literal. What the analytics operations read,
  \<^verbatim>\<open>r[c] || 0\<close>, is zero wherever NaN is stored.
\<close>

theorem normalized_values:
  assumes "normalizeSalesData B (Some rows) = Inr (Some nz)"
  shows "''date'' \<notin> set (seriesCols nz) \<and>
         list_all2 (\<lambda>raw out.
             dom out = insert ''date'' (set (seriesCols nz)) \<and>
             (\<forall>c \<in> set (seriesCols nz).
                out c = Some (VNum (case js_get raw c of
                                      Undefined \<Rightarrow> Fin 0
                                    | Str s \<Rightarrow> if s = [] then Fin 0 else to_double (Number_str B s)
                                    | Inherited k \<Rightarrow> NaN)) \<and>
                read_or0 out c = or0 (Number_or0 B (js_get raw c))))
           (filter (date_parses B (dateCol nz)) rows) (parsed nz)"
proof -
  from assms obtain r0 rs where rows: "Some rows = Some (r0 # rs)"
    and nd: "''date'' \<notin> set (infer_seriesCols r0)"
    and nz: "nz = \<lparr>dateCol = infer_dateCol r0, seriesCols = infer_seriesCols r0,
             parsed = map (make_out B (infer_dateCol r0) (infer_seriesCols r0))
                        (filter (date_parses B (infer_dateCol r0)) (r0 # rs))\<rparr>"
    by (rule normalize_SomeD)
  have "list_all2 (\<lambda>raw out.
             dom out = insert ''date'' (set (infer_seriesCols r0)) \<and>
             (\<forall>c \<in> set (infer_seriesCols r0).
                out c = Some (VNum (case js_get raw c of
                                      Undefined \<Rightarrow> Fin 0
                                    | Str s \<Rightarrow> if s = [] then Fin 0 else to_double (Number_str B s)
                                    | Inherited k \<Rightarrow> NaN)) \<and>
                read_or0 out c = or0 (Number_or0 B (js_get raw c)))) xs
           (map (make_out B (infer_dateCol r0) (infer_seriesCols r0)) xs)" for xs
    by (induction xs) (simp_all add: dom_make_out make_out_series read_or0_def Number_or0_def)
  with rows nd nz show ?thesis by simp
qed

theorem normalized_values_witness:
  "normalizeSalesData sample (Some short_rows) =
     Inr (Some \<lparr>dateCol = Some ''Month'', seriesCols = [''toString'', ''A''],
       parsed = [[''date'' \<mapsto> VDate (Some 1704067200000), ''toString'' \<mapsto> VNum (Fin 7),
                  ''A'' \<mapsto> VNum (Fin 1)],
                 [''date'' \<mapsto> VDate (Some 1706745600000), ''toString'' \<mapsto> VNum NaN,
                  ''A'' \<mapsto> VNum (Fin 0)]]\<rparr>)
   \<and> filter (date_parses sample (Some ''Month'')) short_rows = short_rows
   \<and> js_get (short_rows ! 1) ''toString'' = Inherited ''toString''
   \<and> js_get (short_rows ! 1) ''A'' = Undefined
   \<and> js_get (short_rows ! 0) ''toString'' = Str ''7''
   \<and> Number_or0 sample (Str ''7'') = Fin 7
   \<and> read_or0 [''date'' \<mapsto> VDate (Some 1706745600000), ''toString'' \<mapsto> VNum NaN,
                ''A'' \<mapsto> VNum (Fin 0)] ''toString'' = Fin 0"
  using normalized_values [OF short_rows_normalized] short_rows_normalized
  by (simp add: short_rows_def date_parses_def prop_key_def js_get_def object_prototype_keys_def
      sample_dates sample_numbers Number_or0_absent or0_def)

text \<open>
  C5 as stated fails: the raw value \<^verbatim>\<open>abc\<close> is stored as NaN, not as zero.
\<close>

theorem stored_value_not_zero_counterexample:
  "normalizeSalesData sample (Some [[(''Month'', ''2024-01-01''), (''A'', ''abc'')]]) =
     Inr (Some \<lparr>dateCol = Some ''Month'', seriesCols = [''A''],
       parsed = [[''date'' \<mapsto> VDate (Some 1704067200000), ''A'' \<mapsto> VNum NaN]]\<rparr>)
   \<and> VNum NaN \<noteq> VNum (Fin 0)"
  using abc_rows_normalized by (simp add: abc_rows_def)

subsection \<open>Row count and order\<close>

text \<open>
  C6. The rows that the normalizer returns are the objects built from the input rows
  whose date-column value parses, in the order of the input; so their number is the
  number of input rows minus the number of rows whose date fails to parse, and at most
  the number of input rows.
\<close>

theorem normalize_row_count:
  assumes "normalizeSalesData B (Some rows) = Inr (Some nz)"
  shows "rows \<noteq> []
       \<and> length (parsed nz) \<le> length rows
       \<and> length (parsed nz)
           = length rows - length (filter (\<lambda>r. \<not> date_parses B (dateCol nz) r) rows)
       \<and> parsed nz = map (make_out B (dateCol nz) (seriesCols nz))
                         (filter (date_parses B (dateCol nz)) rows)"
proof -
  from assms obtain r0 rs where rows: "Some rows = Some (r0 # rs)"
    and nz: "nz = \<lparr>dateCol = infer_dateCol r0, seriesCols = infer_seriesCols r0,
             parsed = map (make_out B (infer_dateCol r0) (infer_seriesCols r0))
                        (filter (date_parses B (infer_dateCol r0)) (r0 # rs))\<rparr>"
    by (rule normalize_SomeD)
  have "length (filter (date_parses B (infer_dateCol r0)) (r0 # rs))
      = length (r0 # rs)
        - length (filter (\<lambda>r. \<not> date_parses B (infer_dateCol r0) r) (r0 # rs))"
    using sum_length_filter_compl [of "date_parses B (infer_dateCol r0)" "r0 # rs"] by linarith
  moreover have "length (filter (date_parses B (infer_dateCol r0)) (r0 # rs)) \<le> length (r0 # rs)"
    by (rule length_filter_le)
  ultimately show ?thesis using rows nz
    by (simp del: filter.simps)
qed

theorem normalize_row_count_witness:
  "normalizeSalesData sample (Some gap_rows) =
     Inr (Some \<lparr>dateCol = Some ''Month'', seriesCols = [''A''],
       parsed = [[''date'' \<mapsto> VDate (Some 1704067200000), ''A'' \<mapsto> VNum (Fin 10)],
                 [''date'' \<mapsto> VDate (Some 1709251200000), ''A'' \<mapsto> VNum (Fin 30)]]\<rparr>)
   \<and> length gap_rows = 3
   \<and> length (filter (\<lambda>r. \<not> date_parses sample (Some ''Month'') r) gap_rows) = 1
   \<and> filter (date_parses sample (Some ''Month'')) gap_rows = [gap_rows ! 0, gap_rows ! 2]"
  using normalize_row_count [OF gap_rows_normalized] gap_rows_normalized
  by (simp add: gap_rows_def date_parses_def prop_key_def js_get_def sample_dates)


subsection \<open>Null results and inferred columns\<close>

lemma normalize_null_iff:
  "normalizeSalesData B rows = Inr None \<longleftrightarrow> rows = None \<or> rows = Some []"
proof (cases rows)
  case None
  then show ?thesis by (simp add: normalize_absent)
next
  case (Some rs0)
  then show ?thesis
    by (cases rs0) (simp_all add: normalize_empty normalize_cons)
qed

lemma object_keys_years:
  "object_keys [(''Month'', a), (''2021'', b), (''2020'', c)] = [''2020'', ''2021'', ''Month'']"
  by (simp add: object_keys_def array_index_names array_index_years index_rank_def)

lemma object_keys_Month_date: "object_keys [(''Month'', a), (''date'', b)] = [''Month'', ''date'']"
  by (simp add: object_keys_def array_index_names)

text \<open>
  C7 on the upload with the header \<^verbatim>\<open>Month,2021,2020\<close>: the keys of the first row
  were created in that order, and the normalizer takes \<^verbatim>\<open>2020\<close> for the date column
  and \<^verbatim>\<open>2021\<close>, \<^verbatim>\<open>Month\<close> for the series columns, whatever the conversions are.
\<close>

theorem numeric_header_becomes_date_column:
  "\<exists>p. normalizeSalesData B (Some [[(''Month'', ''2024-01-01''), (''2021'', ''5''), (''2020'', ''7'')]])
       = Inr (Some \<lparr>dateCol = Some ''2020'', seriesCols = [''2021'', ''Month''], parsed = p\<rparr>)"
  by (simp add: normalize_cons infer_seriesCols_def infer_dateCol_def object_keys_years)

lemma date_series_column_throws:
  "normalizeSalesData B (Some [[(''Month'', ''2024-01-01''), (''date'', ''5'')]])
     = Inl (TypeError ''x.date.getTime is not a function'')"
  by (simp add: normalize_cons infer_seriesCols_def object_keys_Month_date)

section \<open>Properties of the endpoints\<close>

subsection \<open>Error responses\<close>

lemma invalid_file_400:
  assumes "store_get st (fileId req) = None \<or> store_get st (fileId req) = Some []"
  shows "fst (top_seller B st req) = Inr (400, ErrorBody ''invalid or missing fileId'')"
    and "fst (moving_average B st req) = Inr (400, ErrorBody ''invalid or missing fileId'')"
    and "fst (correlation B st req) = Inr (400, ErrorBody ''invalid or missing fileId'')"
    and "fst (forecast B st req) = Inr (400, ErrorBody ''invalid or missing fileId'')"
  using assms
  by (auto simp: top_seller_def moving_average_def correlation_def forecast_def
      normalize_absent normalize_empty)

lemma unknown_product_400:
  assumes "normalizeSalesData B (store_get st (fileId req)) = Inr (Some nz)"
    and "\<not> includes_js (seriesCols nz) (product req)"
  shows "fst (moving_average B st req) = Inr (400, ErrorBody ''product not found'')"
    and "fst (forecast B st req) = Inr (400, ErrorBody ''product not found'')"
  using assms by (simp_all add: moving_average_def forecast_def)

text \<open>
  C8 on the upload with the header \<^verbatim>\<open>Month,date\<close> and a request for the product
  \<^verbatim>\<open>x\<close>, which is not a series column: the normalizer overwrites the parsed date of
  \<^verbatim>\<open>out\<close> with the number of the series column \<^verbatim>\<open>date\<close>, and both handlers raise
  a TypeError before they look at the product.
\<close>

theorem unknown_product_raises:
  "fst (moving_average B [''f'' \<mapsto> [[(''Month'', ''2024-01-01''), (''date'', ''5'')]]]
          \<lparr>fileId = Some ''f'', product = Some ''x'', window = None, monthsForecast = None\<rparr>)
     = Inl (TypeError ''x.date.getTime is not a function'')
   \<and> fst (forecast B [''f'' \<mapsto> [[(''Month'', ''2024-01-01''), (''date'', ''5'')]]]
          \<lparr>fileId = Some ''f'', product = Some ''x'', window = None, monthsForecast = None\<rparr>)
     = Inl (TypeError ''x.date.getTime is not a function'')"
  by (simp add: moving_average_def forecast_def store_get_def date_series_column_throws)

subsection \<open>The store\<close>

text \<open>
  C9. Every analytics handler leaves the store of uploaded rows as it found it, whether
  it answers with a result, answers with an error or raises.
\<close>

theorem analytics_keep_store:
  "snd (top_seller B st req) = st \<and> snd (moving_average B st req) = st
   \<and> snd (correlation B st req) = st \<and> snd (forecast B st req) = st"
  by (simp add: top_seller_def moving_average_def correlation_def forecast_def Let_def
      split: sum.split option.split list.split)

subsection \<open>Top seller: the first sorted entry\<close>

lemma length_object_keys: "length (object_keys r) = length r"
  using sum_length_filter_compl [of "\<lambda>k. array_index k \<noteq> None" "map fst r"]
  by (simp add: object_keys_def Let_def)

lemma set_object_keys: "set (object_keys r) = fst ` set r"
  by (auto simp: object_keys_def Let_def)

lemma map_fst_assign:
  "map fst (assign t k v) = (if k \<in> set (map fst t) then map fst t else map fst t @ [k])"
proof (induction t)
  case Nil
  show ?case by simp
next
  case (Cons p t)
  then show ?case by (cases p) force
qed

lemma keys_assign: "fst ` set (assign t k v) = insert k (fst ` set t)"
  using map_fst_assign [of t k v] by (metis (full_types) Un_insert_right append_Nil2 insert_absorb list.set_map list.simps(15) set_append)

lemma length_insert_by: "length (insert_by cmp x ys) = Suc (length ys)"
  by (induction ys) auto

lemma length_js_sort: "length (js_sort cmp xs) = length xs"
  unfolding js_sort_def
  by (induction xs rule: rev_induct) (simp_all add: length_insert_by)

lemma object_entries_Nil_iff: "object_entries t = [] \<longleftrightarrow> t = []"
proof
  assume e: "object_entries t = []"
  show "t = []"
  proof (rule ccontr)
    assume "t \<noteq> []"
    then have "object_keys t \<noteq> []" using length_object_keys [of t] by auto
    then obtain k where k: "k \<in> set (object_keys t)" by (cases "object_keys t") auto
    then have "k \<in> fst ` set t" by (simp add: set_object_keys)
    then obtain v where "map_of t k = Some v"
      by (metis domD dom_map_of_conv_image_fst)
    with k e show False by (auto simp: object_entries_def)
  qed
next
  assume "t = []"
  then show "object_entries t = []" by (simp add: object_entries_def object_keys_def)
qed

lemma keys_add_to_fold:
  "fst ` set (foldl (\<lambda>t c. add_to t c (f c)) t cs) = fst ` set t \<union> set cs"
  by (induction cs arbitrary: t) (simp_all add: add_to_def keys_assign)

lemma keys_init_fold:
  "fst ` set (foldl (\<lambda>t col. assign t col v) t cs) = fst ` set t \<union> set cs"
  by (induction cs arbitrary: t) (simp_all add: keys_assign)

lemma keys_rows_fold:
  "fst ` set (foldl (\<lambda>t r. foldl (\<lambda>t c. add_to t c (g r c)) t cs) t rs)
     = (if rs = [] then fst ` set t else fst ` set t \<union> set cs)"
  by (induction rs arbitrary: t) (auto simp: keys_add_to_fold)

lemma keys_sum_totals: "fst ` set (sum_totals nz) = set (seriesCols nz)"
  by (simp add: sum_totals_def keys_rows_fold keys_init_fold)

lemma sum_totals_Nil_iff: "sum_totals nz = [] \<longleftrightarrow> seriesCols nz = []"
  using keys_sum_totals [of nz] by (metis empty_set image_is_empty set_empty)

lemma sorted_totals_Nil_iff:
  "js_sort by_total_desc (object_entries (sum_totals nz)) = [] \<longleftrightarrow> seriesCols nz = []"
proof -
  have "js_sort by_total_desc (object_entries (sum_totals nz)) = []
      \<longleftrightarrow> object_entries (sum_totals nz) = []"
    using length_js_sort [of by_total_desc "object_entries (sum_totals nz)"]
    by (metis length_0_conv)
  then show ?thesis by (simp add: object_entries_Nil_iff sum_totals_Nil_iff)
qed

text \<open>
  C10. For a stored upload with at least one row, reading the first entry of the sorted
  totals fails (the sorted list is empty, \<^verbatim>\<open>top\<close> is undefined and \<^verbatim>\<open>top[0]\<close>
  raises) exactly when the first row, from which the columns are inferred, has fewer
  than two keys; with two keys or more there is a series column and the read is safe.
\<close>

theorem top_entry_access:
  assumes "store_get st (fileId req) = Some (r0 # rs)"
  shows "fst (top_seller B st req) = Inl (TypeError ''Cannot read properties of undefined'')
         \<longleftrightarrow> length r0 < 2"
proof (cases "''date'' \<in> set (infer_seriesCols r0)")
  case True
  then have "infer_seriesCols r0 \<noteq> []" by auto
  then have "\<not> length r0 < 2"
    using length_object_keys [of r0] by (auto simp: infer_seriesCols_def)
  with True assms show ?thesis
    by (simp add: top_seller_def normalize_cons)
next
  case False
  let ?nz = "\<lparr>dateCol = infer_dateCol r0, seriesCols = infer_seriesCols r0,
             parsed = map (make_out B (infer_dateCol r0) (infer_seriesCols r0))
                        (filter (date_parses B (infer_dateCol r0)) (r0 # rs))\<rparr>"
  have "infer_seriesCols r0 = [] \<longleftrightarrow> length r0 < 2"
    using length_object_keys [of r0] by (auto simp: infer_seriesCols_def)
  moreover have "js_sort by_total_desc (object_entries (sum_totals ?nz)) = []
      \<longleftrightarrow> infer_seriesCols r0 = []"
    using sorted_totals_Nil_iff [of ?nz] by simp
  ultimately have e: "js_sort by_total_desc (object_entries (sum_totals ?nz)) = []
      \<longleftrightarrow> length r0 < 2"
    by simp
  show ?thesis
  proof (cases "js_sort by_total_desc (object_entries (sum_totals ?nz))")
    case Nil
    with e False assms show ?thesis
      by (simp add: top_seller_def normalize_cons del: filter.simps)
  next
    case (Cons t ts)
    with e False assms show ?thesis
      by (simp add: top_seller_def normalize_cons del: filter.simps)
  qed
qed

theorem top_entry_access_witness:
  "store_get [''f'' \<mapsto> [[(''Month'', ''2024-01-01'')]]] (Some ''f'')
     = Some ([(''Month'', ''2024-01-01'')] # [])
   \<and> fst (top_seller sample [''f'' \<mapsto> [[(''Month'', ''2024-01-01'')]]]
          \<lparr>fileId = Some ''f'', product = None, window = None, monthsForecast = None\<rparr>)
     = Inl (TypeError ''Cannot read properties of undefined'')"
  using top_entry_access [of "[''f'' \<mapsto> [[(''Month'', ''2024-01-01'')]]]"
      "\<lparr>fileId = Some ''f'', product = None, window = None, monthsForecast = None\<rparr>"
      "[(''Month'', ''2024-01-01'')]" "[]" sample]
  by (simp add: store_get_def)

subsection \<open>Moving average\<close>




























subsection \<open>Top seller: the totals\<close>
























subsection \<open>Forecast\<close>

lemma reduce_add_sum_js: "reduce_add (map f [0..<n]) = sum_js f n"
  by (simp add: reduce_add_def sum_js_def)

lemma reduce_add_nth: "reduce_add y = sum_js (\<lambda>i. y ! i) (length y)"
  using reduce_add_sum_js [of "\<lambda>i. y ! i" "length y"] by (simp add: map_nth)

lemma regression_js:
  "regression y = \<lparr>slope = ols_slope_js y, intercept = ols_intercept_js y\<rparr>"
proof -
  let ?n = "length y"
  let ?X = "map (\<lambda>i. Fin (real i)) [0..<?n]"
  have xm: "jdiv (reduce_add ?X) (Fin (real ?n)) = index_mean_js ?n"
    by (simp only: reduce_add_sum_js index_mean_js_def)
  have ym: "jdiv (reduce_add y) (Fin (real ?n)) = value_mean_js y"
    by (simp only: value_mean_js_def flip: reduce_add_nth)
  have "map (\<lambda>i. jmul (jsub (?X ! i) (index_mean_js ?n)) (jsub (nth_num y i) (value_mean_js y)))
          [0..<?n]
      = map (\<lambda>i. jmul (jsub (Fin (real i)) (index_mean_js ?n)) (jsub (y ! i) (value_mean_js y)))
          [0..<?n]"
    by (intro map_cong) (simp_all add: nth_num_def)
  then have num: "reduce_add (map (\<lambda>i. jmul (jsub (?X ! i) (index_mean_js ?n))
                    (jsub (nth_num y i) (value_mean_js y))) [0..<?n])
      = sum_js (\<lambda>i. jmul (jsub (Fin (real i)) (index_mean_js ?n)) (jsub (y ! i) (value_mean_js y))) ?n"
    by (simp only: reduce_add_sum_js)
  have "map (\<lambda>xi. jsq (jsub xi (index_mean_js ?n))) ?X
      = map (\<lambda>i. jsq (jsub (Fin (real i)) (index_mean_js ?n))) [0..<?n]"
    by (simp add: comp_def)
  then have den: "reduce_add (map (\<lambda>xi. jsq (jsub xi (index_mean_js ?n))) ?X)
      = sum_js (\<lambda>i. jsq (jsub (Fin (real i)) (index_mean_js ?n))) ?n"
    by (simp only: reduce_add_sum_js)
  show ?thesis
    unfolding regression_def Let_def length_map length_upt diff_zero xm ym num den
    by (simp add: ols_slope_js_def ols_intercept_js_def Let_def)
qed

lemma upto_from_1: "[1..int k] = map (\<lambda>j. int j + 1) [0..<k]"
proof (induction k)
  case 0
  show ?case by simp
next
  case (Suc k)
  have "[1..int (Suc k)] = [1..int k] @ [int k + 1]"
    using upto_rec2 [of 1 "int k + 1"] by (simp add: add.commute)
  with Suc show ?case by simp
qed

lemma predictions_indices:
  "predictions f n mf =
     map (\<lambda>k. (int (n + k), toFixed_num 2 (jadd (intercept f) (jmul (slope f) (Fin (real (n + k)))))))
       [0..<nat mf]"
proof (cases "1 \<le> mf")
  case True
  then have "[1..mf] = map (\<lambda>j. int j + 1) [0..<nat mf]"
    using upto_from_1 [of "nat mf"] by simp
  then show ?thesis
    by (simp add: predictions_def Let_def comp_def)
next
  case False
  then show ?thesis by (simp add: predictions_def)
qed

lemma ols_slope_js_short: "length y < 2 \<Longrightarrow> ols_slope_js y = Fin 0"
proof -
  assume "length y < 2"
  then consider "y = []" | a where "y = [a]"
    by (cases y; cases "tl y") auto
  then show ?thesis
    by cases (simp_all add: ols_slope_js_def sum_js_def index_mean_js_def jsub_def jsq_def rnd_0)
qed

lemma ols_intercept_js_Nil: "ols_intercept_js [] = NaN"
  by (simp add: ols_intercept_js_def value_mean_js_def sum_js_def inf_of_sign_def jsub_def)

lemma forecast_result:
  assumes norm: "normalizeSalesData B (store_get st (fileId req)) = Inr (Some nz)"
    and prod: "product req = Some p" "p \<in> set (seriesCols nz)"
    and mf: "mf = (case monthsForecast req of None \<Rightarrow> 3 | Some m \<Rightarrow> m)"
  shows "fst (forecast B st req)
       = Inr (200, Forecast (Some p)
           (toFixed_num 4 (ols_slope_js (column_values nz p)))
           (toFixed_num 4 (ols_intercept_js (column_values nz p)))
           (map (\<lambda>k. (int (length (parsed nz) + k),
                       toFixed_num 2 (jadd (ols_intercept_js (column_values nz p))
                         (jmul (ols_slope_js (column_values nz p))
                            (Fin (real (length (parsed nz) + k)))))))
              [0..<nat mf]))"
proof -
  have len: "length (map (\<lambda>r. read_or0 r p) (parsed nz)) = length (parsed nz)" by simp
  show ?thesis
    using norm prod mf
    by (simp only: forecast_def Let_def regression_js predictions_indices column_values_def len)
      (simp add: includes_js_def prop_key_def)
qed

text \<open>
  C1, as the code has it. Let the normalizer return a series with \<open>n\<close> rows, let the
  product be one of its series columns, and let \<open>mf\<close> be the number of months of the
  request, 3 when it has none. The handler answers with the slope and the intercept of
  the least-squares formulas over the indices \<open>0, \<dots>, n - 1\<close>, evaluated in binary64
  (every sum taken in the order of the indices starting from 0, every operation
  rounded), both then rounded to 4 decimals, and with \<open>mf\<close> predictions
  \<open>intercept + slope * idx\<close>, evaluated in binary64 from the unrounded slope and
  intercept and then rounded to 2 decimals, at the indices \<open>n, \<dots>, n + mf - 1\<close>. With
  fewer than 2 rows the slope is 0. With no row at all the means are \<open>0 / 0\<close> and the
  intercept is NaN.
\<close>

theorem forecast_least_squares:
  assumes norm: "normalizeSalesData B (store_get st (fileId req)) = Inr (Some nz)"
    and prod: "product req = Some p" "p \<in> set (seriesCols nz)"
    and mf: "mf = (case monthsForecast req of None \<Rightarrow> 3 | Some m \<Rightarrow> m)"
  shows "fst (forecast B st req)
       = Inr (200, Forecast (Some p)
           (toFixed_num 4 (ols_slope_js (column_values nz p)))
           (toFixed_num 4 (ols_intercept_js (column_values nz p)))
           (map (\<lambda>k. (int (length (parsed nz) + k),
                       toFixed_num 2 (jadd (ols_intercept_js (column_values nz p))
                         (jmul (ols_slope_js (column_values nz p))
                            (Fin (real (length (parsed nz) + k)))))))
              [0..<nat mf]))
     \<and> length (column_values nz p) = length (parsed nz)
     \<and> (length (parsed nz) < 2 \<longrightarrow> ols_slope_js (column_values nz p) = Fin 0)
     \<and> (parsed nz = [] \<longrightarrow> ols_intercept_js (column_values nz p) = NaN)"
proof -
  have len: "length (column_values nz p) = length (parsed nz)"
    by (simp add: column_values_def)
  have short: "ols_slope_js (column_values nz p) = Fin 0" if "length (parsed nz) < 2"
    using that len by (simp add: ols_slope_js_short)
  have none: "ols_intercept_js (column_values nz p) = NaN" if "parsed nz = []"
    using that by (simp add: column_values_def ols_intercept_js_Nil)
  from forecast_result [OF norm prod mf] len short none show ?thesis by blast
qed

lemma sum_js_unfold:
  "sum_js f (Suc (Suc 0)) = jadd (jadd (Fin 0) (f 0)) (f 1)"
  "sum_js f (Suc (Suc (Suc 0))) = jadd (jadd (jadd (Fin 0) (f 0)) (f 1)) (f 2)"
  "sum_js f (Suc (Suc (Suc (Suc 0)))) = jadd (jadd (jadd (jadd (Fin 0) (f 0)) (f 1)) (f 2)) (f 3)"
  by (simp_all add: sum_js_def eval_nat_numeral)

lemmas ols_eval = ols_intercept_js_def ols_slope_js_def index_mean_js_def value_mean_js_def
  sum_js_unfold jsub_def jsq_def rnd_eval

lemma ols_lin:
  "ols_slope_js [Fin 10, Fin 20, Fin 30, Fin 40] = Fin 10"
  "ols_intercept_js [Fin 10, Fin 20, Fin 30, Fin 40] = Fin 10"
  by (simp_all add: ols_eval)

lemma ols_curve:
  "ols_slope_js [Fin 1, Fin 2, Fin 4] = Fin (3 / 2)"
  "ols_intercept_js [Fin 1, Fin 2, Fin 4] = Fin (1876499844737707 / 2251799813685248)"
  by (simp_all add: ols_eval)

lemma ols_single: "ols_slope_js [Fin 0] = Fin 0" "ols_intercept_js [Fin 0] = Fin 0"
  by (simp_all add: ols_intercept_js_def ols_slope_js_def index_mean_js_def value_mean_js_def
      sum_js_def jsub_def jsq_def rnd_0)

lemma ols_tie:
  "ols_slope_js [Fin 0, Fin (5764607523034235 / 1152921504606846976)]
     = Fin (5764607523034235 / 1152921504606846976)"
  "ols_intercept_js [Fin 0, Fin (5764607523034235 / 1152921504606846976)] = Fin 0"
  by (simp_all add: ols_eval)

lemma decimals_curve:
  "rnd (8333 / 10000) = Fin (7505699138975669 / 9007199254740992)"
  "rnd (533 / 100) = Fin (3000523251735593 / 562949953421312)"
  "rnd (683 / 100) = Fin (3844948181867561 / 562949953421312)"
  "rnd (833 / 100) = Fin (4689373111999529 / 562949953421312)"
  by (simp_all add: rnd_eval)

lemma decimals_tie:
  "rnd (1 / 200) = Fin (5764607523034235 / 1152921504606846976)"
  "rnd (1 / 100) = Fin (5764607523034235 / 576460752303423488)"
  "rnd (2 / 100) = Fin (5764607523034235 / 288230376151711744)"
  by (simp_all add: rnd_eval)

lemma sample_number_tie:
  "Number_or0 sample (Str ''0.005'') = Fin (5764607523034235 / 1152921504606846976)"
  by (simp add: Number_or0_def sample_def sample_Number_str_def is_digit_def dec_val_def
      decimals_tie)

lemma curve_rows_normalized:
  "normalizeSalesData sample (Some curve_rows) =
     Inr (Some \<lparr>dateCol = Some ''Month'', seriesCols = [''A''],
       parsed = [[''date'' \<mapsto> VDate (Some 1704067200000), ''A'' \<mapsto> VNum (Fin 1)],
                 [''date'' \<mapsto> VDate (Some 1706745600000), ''A'' \<mapsto> VNum (Fin 2)],
                 [''date'' \<mapsto> VDate (Some 1709251200000), ''A'' \<mapsto> VNum (Fin 4)]]\<rparr>)"
  by (simp add: curve_rows_def normalize_eval)

lemma tie_rows_normalized:
  "normalizeSalesData sample (Some tie_rows) =
     Inr (Some \<lparr>dateCol = Some ''Month'', seriesCols = [''A''],
       parsed = [[''date'' \<mapsto> VDate (Some 1704067200000), ''A'' \<mapsto> VNum (Fin 0)],
                 [''date'' \<mapsto> VDate (Some 1706745600000),
                  ''A'' \<mapsto> VNum (Fin (5764607523034235 / 1152921504606846976))]]\<rparr>)"
  by (simp add: tie_rows_def normalize_eval sample_number_tie)

lemma upt_3: "[0..<nat 3] = [0, 1, 2]"
  by (simp add: eval_nat_numeral)

theorem forecast_least_squares_witness:
  "fst (forecast sample [''f'' \<mapsto> lin_rows] (request_for (Some ''A'') None))
       = Inr (200, Forecast (Some ''A'') (Fin 10) (Fin 10) [(4, Fin 50), (5, Fin 60), (6, Fin 70)])
   \<and> fst (forecast sample [''f'' \<mapsto> curve_rows] (request_for (Some ''A'') None))
       = Inr (200, Forecast (Some ''A'') (Fin (3 / 2)) (Fin (7505699138975669 / 9007199254740992))
           [(3, Fin (3000523251735593 / 562949953421312)),
            (4, Fin (3844948181867561 / 562949953421312)),
            (5, Fin (4689373111999529 / 562949953421312))])
   \<and> rnd (8333 / 10000) = Fin (7505699138975669 / 9007199254740992)
   \<and> rnd (533 / 100) = Fin (3000523251735593 / 562949953421312)
   \<and> rnd (683 / 100) = Fin (3844948181867561 / 562949953421312)
   \<and> rnd (833 / 100) = Fin (4689373111999529 / 562949953421312)
   \<and> fst (forecast sample [''f'' \<mapsto> abc_rows] (request_for (Some ''A'') None))
       = Inr (200, Forecast (Some ''A'') (Fin 0) (Fin 0) [(1, Fin 0), (2, Fin 0), (3, Fin 0)])"
proof -
  let ?req = "request_for (Some ''A'') None"
  have p: "product ?req = Some ''A''" by (simp add: request_for_def)
  have m: "3 = (case monthsForecast ?req of None \<Rightarrow> 3 | Some m \<Rightarrow> m)"
    by (simp add: request_for_def)
  let ?lin = "\<lparr>dateCol = Some ''Month'', seriesCols = [''A''],
       parsed = [[''date'' \<mapsto> VDate (Some 1704067200000), ''A'' \<mapsto> VNum (Fin 10)],
                 [''date'' \<mapsto> VDate (Some 1706745600000), ''A'' \<mapsto> VNum (Fin 20)],
                 [''date'' \<mapsto> VDate (Some 1709251200000), ''A'' \<mapsto> VNum (Fin 30)],
                 [''date'' \<mapsto> VDate (Some 1711929600000), ''A'' \<mapsto> VNum (Fin 40)]]\<rparr>"
  have n1: "normalizeSalesData sample (store_get [''f'' \<mapsto> lin_rows] (fileId ?req)) = Inr (Some ?lin)"
    using lin_rows_normalized by (simp add: store_get_def request_for_def)
  have v1: "column_values ?lin ''A'' = [Fin 10, Fin 20, Fin 30, Fin 40]"
    by (simp add: column_values_def read_or0_def or0_def)
  have "''A'' \<in> set (seriesCols ?lin)" by simp
  from forecast_least_squares [OF n1 p this m, THEN conjunct1]
  have a: "fst (forecast sample [''f'' \<mapsto> lin_rows] ?req)
       = Inr (200, Forecast (Some ''A'') (Fin 10) (Fin 10) [(4, Fin 50), (5, Fin 60), (6, Fin 70)])"
    by (simp only: v1 ols_lin upt_3) (simp, simp add: round_dec_def rnd_small)
  let ?curve = "\<lparr>dateCol = Some ''Month'', seriesCols = [''A''],
       parsed = [[''date'' \<mapsto> VDate (Some 1704067200000), ''A'' \<mapsto> VNum (Fin 1)],
                 [''date'' \<mapsto> VDate (Some 1706745600000), ''A'' \<mapsto> VNum (Fin 2)],
                 [''date'' \<mapsto> VDate (Some 1709251200000), ''A'' \<mapsto> VNum (Fin 4)]]\<rparr>"
  have n2: "normalizeSalesData sample (store_get [''f'' \<mapsto> curve_rows] (fileId ?req))
      = Inr (Some ?curve)"
    using curve_rows_normalized by (simp add: store_get_def request_for_def)
  have v2: "column_values ?curve ''A'' = [Fin 1, Fin 2, Fin 4]"
    by (simp add: column_values_def read_or0_def or0_def)
  have "''A'' \<in> set (seriesCols ?curve)" by simp
  from forecast_least_squares [OF n2 p this m, THEN conjunct1]
  have b: "fst (forecast sample [''f'' \<mapsto> curve_rows] ?req)
       = Inr (200, Forecast (Some ''A'') (Fin (3 / 2)) (Fin (7505699138975669 / 9007199254740992))
           [(3, Fin (3000523251735593 / 562949953421312)),
            (4, Fin (3844948181867561 / 562949953421312)),
            (5, Fin (4689373111999529 / 562949953421312))])"
    by (simp only: v2 ols_curve upt_3) (simp, simp add: round_dec_def rnd_eval)
  let ?abc = "\<lparr>dateCol = Some ''Month'', seriesCols = [''A''],
       parsed = [[''date'' \<mapsto> VDate (Some 1704067200000), ''A'' \<mapsto> VNum NaN]]\<rparr>"
  have n3: "normalizeSalesData sample (store_get [''f'' \<mapsto> abc_rows] (fileId ?req)) = Inr (Some ?abc)"
    using abc_rows_normalized by (simp add: store_get_def request_for_def)
  have v3: "column_values ?abc ''A'' = [Fin 0]"
    by (simp add: column_values_def read_or0_def or0_def)
  have s3: "''A'' \<in> set (seriesCols ?abc)" by simp
  note t3 = forecast_least_squares [OF n3 p s3 m]
  have "ols_slope_js (column_values ?abc ''A'') = Fin 0"
    using t3 by simp
  then have sl: "ols_slope_js [Fin 0] = Fin 0" by (simp only: v3)
  from t3 [THEN conjunct1]
  have c: "fst (forecast sample [''f'' \<mapsto> abc_rows] ?req)
       = Inr (200, Forecast (Some ''A'') (Fin 0) (Fin 0) [(1, Fin 0), (2, Fin 0), (3, Fin 0)])"
    by (simp only: v3 sl ols_single upt_3) (simp, simp add: round_dec_def rnd_0)
  from a b c show ?thesis by (simp add: decimals_curve)
qed

text \<open>
  C1 as stated fails. On the series \<^verbatim>\<open>0, 0.005\<close> the least-squares line has the
  slope of the second value, which is the binary64 value next to 0.005 and slightly
  above it, and the intercept 0. The prediction at index 3 is the product of the slope
  and 3 rounded to binary64, which is slightly below 0.015, and the handler answers
  with 0.01. The exact value of intercept + slope * 3 is above 0.015 and its rounding
  to 2 decimals is 0.02.
\<close>

theorem forecast_rounding_counterexample:
  "fst (forecast sample [''f'' \<mapsto> tie_rows] (request_for (Some ''A'') None))
       = Inr (200, Forecast (Some ''A'') (Fin (5764607523034235 / 1152921504606846976)) (Fin 0)
           [(2, Fin (5764607523034235 / 576460752303423488)),
            (3, Fin (5764607523034235 / 576460752303423488)),
            (4, Fin (5764607523034235 / 288230376151711744))])
   \<and> rnd (1 / 100) = Fin (5764607523034235 / 576460752303423488)
   \<and> round_dec 2 (ols_intercept [0, 5764607523034235 / 1152921504606846976]
        + ols_slope [0, 5764607523034235 / 1152921504606846976] * 3) = 2 / 100
   \<and> rnd (2 / 100) = Fin (5764607523034235 / 288230376151711744)
   \<and> Fin (5764607523034235 / 576460752303423488) \<noteq> rnd (2 / 100)"
proof -
  let ?req = "request_for (Some ''A'') None"
  let ?tie = "\<lparr>dateCol = Some ''Month'', seriesCols = [''A''],
       parsed = [[''date'' \<mapsto> VDate (Some 1704067200000), ''A'' \<mapsto> VNum (Fin 0)],
                 [''date'' \<mapsto> VDate (Some 1706745600000),
                  ''A'' \<mapsto> VNum (Fin (5764607523034235 / 1152921504606846976))]]\<rparr>"
  have p: "product ?req = Some ''A''" "''A'' \<in> set (seriesCols ?tie)"
    by (simp_all add: request_for_def)
  have m: "3 = (case monthsForecast ?req of None \<Rightarrow> 3 | Some m \<Rightarrow> m)"
    by (simp add: request_for_def)
  have n: "normalizeSalesData sample (store_get [''f'' \<mapsto> tie_rows] (fileId ?req)) = Inr (Some ?tie)"
    using tie_rows_normalized by (simp add: store_get_def request_for_def)
  have v: "column_values ?tie ''A'' = [Fin 0, Fin (5764607523034235 / 1152921504606846976)]"
    by (simp add: column_values_def read_or0_def or0_def)
  from forecast_result [OF n p m]
  have a: "fst (forecast sample [''f'' \<mapsto> tie_rows] ?req)
       = Inr (200, Forecast (Some ''A'') (Fin (5764607523034235 / 1152921504606846976)) (Fin 0)
           [(2, Fin (5764607523034235 / 576460752303423488)),
            (3, Fin (5764607523034235 / 576460752303423488)),
            (4, Fin (5764607523034235 / 288230376151711744))])"
    by (simp only: v ols_tie upt_3) (simp, simp add: round_dec_def rnd_eval)
  have e: "ols_slope [0, 5764607523034235 / 1152921504606846976]
             = 5764607523034235 / 1152921504606846976"
    "ols_intercept [0, 5764607523034235 / 1152921504606846976] = 0"
    by (simp_all add: ols_slope_def ols_intercept_def index_mean_def value_mean_def Let_def
        lessThan_Suc eval_nat_numeral power2_eq_square)
  have r: "round_dec 2 (ols_intercept [0, 5764607523034235 / 1152921504606846976]
        + ols_slope [0, 5764607523034235 / 1152921504606846976] * 3) = 2 / 100"
    by (simp only: e) (simp add: round_dec_def)
  have ne: "Fin (5764607523034235 / 576460752303423488) \<noteq> rnd (2 / 100)"
    unfolding decimals_tie(3) by simp
  from a decimals_tie(2) r decimals_tie(3) ne show ?thesis by blast
qed

end
